theory Spec2Isabelle
  imports Complex_Main
begin

section \<open>Chain maintenance (libraries/chain/db_maint.cpp)\<close>

text \<open>
  A shallow embedding of the maintenance pass of the chain database: candidate sorting,
  active witness and committee election, legacy authority construction, worker pay, the
  budget record, the FBA fee split and the vote tally.  Every function below carries the
  name of the C++ function it embeds.
\<close>

section \<open>The model\<close>

subsection \<open>Machine integers\<close>

text \<open>
  \<open>share_type\<close> is \<open>safe<int64_t>\<close> (protocol/types.hpp, line 299): a signed 64-bit
  value whose arithmetic throws instead of wrapping.  It is modelled as an \<open>int\<close> with the
  range check written out.  \<open>uint64_t\<close> and \<open>fc::uint128\<close> values are \<open>nat\<close> with the
  wrap-around written out.
\<close>

type_synonym share_type = int

datatype error =
    overflow_exception
  | underflow_exception
  | assert_exception
  | assertion_failure
  | object_not_found
  | invalid_optional

definition bind_r :: "error + 'a \<Rightarrow> ('a \<Rightarrow> error + 'b) \<Rightarrow> error + 'b" where
  "bind_r m f = (case m of Inl e \<Rightarrow> Inl e | Inr x \<Rightarrow> f x)"

definition is_int64 :: "int \<Rightarrow> bool" where
  "is_int64 x = (- (2 ^ 63) \<le> x \<and> x < 2 ^ 63)"

definition safe_add :: "share_type \<Rightarrow> share_type \<Rightarrow> error + share_type" where
  "safe_add a b =
     (if a + b \<ge> 2 ^ 63 then Inl overflow_exception
      else if a + b < - (2 ^ 63) then Inl underflow_exception
      else Inr (a + b))"

definition safe_sub :: "share_type \<Rightarrow> share_type \<Rightarrow> error + share_type" where
  "safe_sub a b =
     (if a - b \<ge> 2 ^ 63 then Inl overflow_exception
      else if a - b < - (2 ^ 63) then Inl underflow_exception
      else Inr (a - b))"

text \<open>Conversion of an unsigned 64-bit value to \<open>int64_t\<close> (two's complement).\<close>

definition to_int64 :: "nat \<Rightarrow> int" where
  "to_int64 n = (if n mod 2 ^ 64 < 2 ^ 63 then int (n mod 2 ^ 64) else int (n mod 2 ^ 64) - 2 ^ 64)"

text \<open>Conversion of a signed value to \<open>uint64_t\<close> and to \<open>fc::uint128\<close> (sign extension).\<close>

definition to_uint64 :: "int \<Rightarrow> nat" where
  "to_uint64 i = nat (i mod 2 ^ 64)"

definition to_uint128 :: "int \<Rightarrow> nat" where
  "to_uint128 i = nat (i mod 2 ^ 128)"

subsection \<open>Votable objects\<close>

text \<open>
  Modelled from the spec: the declaration of \<open>vote_id_type\<close> (protocol/vote.hpp) is not
  among the sources.  The spec calls a vote id a ``dense integer keying both candidate
  records and the tally buffer'', so a vote id is a \<open>nat\<close>, its \<open>instance()\<close> is the
  number itself and \<open><\<close> is the order of numbers.
\<close>

type_synonym vote_id_type = nat
type_synonym account_id_type = nat

record witness_object =
  wit_id :: nat
  witness_account :: account_id_type
  wit_vote_id :: vote_id_type
  wit_total_votes :: nat

record committee_member_object =
  cm_id :: nat
  committee_member_account :: account_id_type
  cm_vote_id :: vote_id_type
  cm_total_votes :: nat

text \<open>
  The comparison given to \<open>std::partial_sort\<close> in \<open>sort_votable_objects\<close> (lines 64-70).
  \<open>_vote_tally_buffer\<close> holds \<open>uint64_t\<close>; both tallies are converted to \<open>share_type\<close>
  before they are compared.  A read past the end of the buffer is undefined in C++ and
  unspecified here (\<open>!\<close>).
\<close>

definition vote_compare :: "nat list \<Rightarrow> ('o \<Rightarrow> vote_id_type) \<Rightarrow> 'o \<Rightarrow> 'o \<Rightarrow> bool" where
  "vote_compare vote_tally_buffer vid a b =
     (let oa_vote = to_int64 (vote_tally_buffer ! vid a);
          ob_vote = to_int64 (vote_tally_buffer ! vid b)
      in if oa_vote \<noteq> ob_vote then oa_vote > ob_vote else vid a < vid b)"

text \<open>
  \<open>std::partial_sort (first, first + count, last, comp)\<close> leaves the \<open>count\<close> least
  elements, in order, at the front.  The model sorts the whole range by insertion; the
  order it gives to the elements past \<open>count\<close> is never read.
\<close>

fun insert_by :: "('o \<Rightarrow> 'o \<Rightarrow> bool) \<Rightarrow> 'o \<Rightarrow> 'o list \<Rightarrow> 'o list" where
  "insert_by cmp x [] = [x]"
| "insert_by cmp x (y # ys) = (if cmp y x then y # insert_by cmp x ys else x # y # ys)"

definition partial_sort :: "('o \<Rightarrow> 'o \<Rightarrow> bool) \<Rightarrow> nat \<Rightarrow> 'o list \<Rightarrow> 'o list" where
  "partial_sort cmp count refs = foldr (insert_by cmp) refs []"

text \<open>
  \<open>database::sort_votable_objects<Index>\<close> (lines 52-74).  The index is the list of its
  objects; \<open>vid\<close> reads the \<open>vote_id\<close> member of the object type.
\<close>

definition sort_votable_objects ::
  "nat list \<Rightarrow> ('o \<Rightarrow> vote_id_type) \<Rightarrow> 'o list \<Rightarrow> nat \<Rightarrow> 'o list" where
  "sort_votable_objects vote_tally_buffer vid all_objects count0 =
     (let count = min count0 (length all_objects);
          refs = partial_sort (vote_compare vote_tally_buffer vid) count all_objects
      in take count refs)"

subsection \<open>The objects of the database\<close>

text \<open>
  The declarations of the objects are in headers outside the sources; the fields below
  are the ones db_maint.cpp reads and writes, under the names it uses.  A time is a
  \<open>time_point_sec\<close>: seconds since the epoch, 32 bits wide.
\<close>

type_synonym time_point_sec = nat

text \<open>\<open>weight_type\<close> is \<open>uint16_t\<close> (protocol/types.hpp, line 300); the threshold is 32 bits.\<close>

record authority =
  weight_threshold :: nat
  account_auths :: "(account_id_type \<times> nat) list"
  key_auths :: "(nat \<times> nat) list"
  address_auths :: "(nat \<times> nat) list"

record worker_object =
  worker_id :: nat
  daily_pay :: share_type
  vote_for :: vote_id_type
  vote_against :: vote_id_type
  total_votes_for :: nat
  total_votes_against :: nat

record account_options =
  voting_account :: account_id_type
  num_witness :: nat
  num_committee :: nat
  votes :: "vote_id_type list"

record account_object =
  acc_id :: account_id_type
  options :: account_options
  acc_total_core_in_orders :: share_type
  cashback_vb :: "share_type option"

record chain_parameters =
  block_interval :: nat
  maximum_witness_count :: nat
  maximum_committee_count :: nat
  witness_pay_per_block :: share_type
  worker_budget_per_day :: share_type
  count_non_member_votes :: bool

record global_property_object =
  parameters :: chain_parameters
  next_available_vote_id :: nat
  active_committee_members :: "nat list"
  active_witnesses :: "nat list"

record dynamic_global_property_object =
  dgp_time :: time_point_sec
  next_maintenance_time :: time_point_sec
  last_budget_time :: time_point_sec
  dpo_witness_budget :: share_type

record immutable_chain_parameters =
  min_committee_member_count :: nat
  min_witness_count :: nat

record asset_dynamic_data_object =
  current_supply :: share_type
  accumulated_fees :: share_type

record asset_object =
  issuer :: account_id_type
  buyback_account :: "account_id_type option"

record fba_accumulator_object =
  accumulated_fba_fees :: share_type
  designated_asset :: "nat option"

record fba_distribute_operation =
  op_account_id :: account_id_type
  op_fba_id :: nat
  op_amount :: share_type

text \<open>
  Modelled from the spec: the declaration of \<open>budget_record\<close> (budget_record_object.hpp)
  is not among the sources.  Its fields are the ones \<open>initialize_budget_record\<close> and
  \<open>process_budget\<close> assign; a fresh record holds zero in each (a \<open>share_type\<close> starts at
  zero, and the spec's scenario S2 expects a ``budget record written with zero amounts'').
\<close>

record budget_record =
  time_since_last_budget :: nat
  from_initial_reserve :: share_type
  from_accumulated_fees :: share_type
  from_unused_witness_budget :: share_type
  requested_witness_budget :: share_type
  total_budget :: share_type
  witness_budget :: share_type
  worker_budget :: share_type
  leftover_worker_funds :: share_type
  supply_delta :: share_type

definition budget_record_init :: budget_record where
  "budget_record_init =
     \<lparr>time_since_last_budget = 0, from_initial_reserve = 0, from_accumulated_fees = 0,
      from_unused_witness_budget = 0, requested_witness_budget = 0, total_budget = 0,
      witness_budget = 0, worker_budget = 0, leftover_worker_funds = 0, supply_delta = 0\<rparr>"

text \<open>
  The state of the database that the maintenance pass touches.  \<open>core_dd\<close> is the dynamic
  data of asset 0.  The three \<open>*_active\<close> fields are the \<open>active\<close> authorities of
  \<open>GRAPHENE_WITNESS_ACCOUNT\<close>, \<open>GRAPHENE_COMMITTEE_ACCOUNT\<close> and
  \<open>GRAPHENE_RELAXED_COMMITTEE_ACCOUNT\<close>.  An index is the list of its objects in the order
  the code walks it.  The spec speaks of the ``list of active producers'', so
  \<open>active_witnesses\<close> is a list.
\<close>

record database =
  gpo :: global_property_object
  dpo :: dynamic_global_property_object
  cpo :: immutable_chain_parameters
  core_dd :: asset_dynamic_data_object
  witness_index :: "witness_object list"
  committee_member_index :: "committee_member_object list"
  worker_index :: "worker_object list"
  account_index :: "account_object list"
  vote_tally_buffer :: "nat list"
  witness_count_histogram_buffer :: "nat list"
  committee_count_histogram_buffer :: "nat list"
  total_voting_stake :: nat
  witness_account_active :: authority
  committee_account_active :: authority
  relaxed_committee_account_active :: authority
  fba_accumulators :: "nat \<Rightarrow> fba_accumulator_object option"
  assets :: "nat \<Rightarrow> asset_object option"
  core_balances :: "account_id_type \<Rightarrow> share_type"
  applied_operations :: "fba_distribute_operation list"
  budget_records :: "(time_point_sec \<times> budget_record) list"

definition head_block_time :: "database \<Rightarrow> time_point_sec" where
  "head_block_time db = dgp_time (dpo db)"

text \<open>
  What db_maint.cpp uses and the sources do not hold, taken as parameters: the constants
  of config.hpp and hardfork.hpp, \<open>asset_object::reserved\<close>, the methods of
  \<open>worker_object\<close> and of its worker variants (\<open>pay_worker\<close> may change any part of the
  database, or throw), \<open>account_object::is_member\<close>,
  \<open>fba_accumulator_object::is_configured\<close> and the \<open>vote_counter\<close> of the authority
  construction after \<open>HARDFORK_533_TIME\<close>.
\<close>

record externals =
  GRAPHENE_100_PERCENT :: nat
  GRAPHENE_1_PERCENT :: nat
  GRAPHENE_CORE_ASSET_CYCLE_RATE :: nat
  GRAPHENE_CORE_ASSET_CYCLE_RATE_BITS :: nat
  GRAPHENE_PROXY_TO_SELF_ACCOUNT :: account_id_type
  HARDFORK_533_TIME :: time_point_sec
  reserved :: "database \<Rightarrow> share_type"
  is_active :: "worker_object \<Rightarrow> time_point_sec \<Rightarrow> bool"
  approving_stake :: "worker_object \<Rightarrow> share_type"
  pay_worker :: "worker_object \<Rightarrow> share_type \<Rightarrow> database \<Rightarrow> error + database"
  is_member :: "account_object \<Rightarrow> time_point_sec \<Rightarrow> bool"
  is_configured :: "fba_accumulator_object \<Rightarrow> database \<Rightarrow> bool"
  vote_counter_finish :: "(account_id_type \<times> nat) list \<Rightarrow> authority \<Rightarrow> authority"

subsection \<open>Election of witnesses and committee members\<close>

definition add_uint64 :: "nat \<Rightarrow> nat \<Rightarrow> nat" where
  "add_uint64 a b = (a + b) mod 2 ^ 64"

definition sub_uint64 :: "nat \<Rightarrow> nat \<Rightarrow> nat" where
  "sub_uint64 a b = nat ((int a - int b) mod 2 ^ 64)"

text \<open>
  \<open>boost::multiprecision::detail::find_msb\<close>: the index of the highest set bit.  Boost
  leaves the result for 0 undefined; the model returns 0 there, which like every value up
  to 15 makes \<open>bits_to_drop\<close> zero.
\<close>

fun find_msb :: "nat \<Rightarrow> nat" where
  "find_msb n = (if n < 2 then 0 else Suc (find_msb (n div 2)))"

text \<open>\<open>std::map::emplace\<close>: the map is kept in key order and an existing key keeps its value.\<close>

fun map_emplace :: "(nat \<times> 'v) list \<Rightarrow> nat \<Rightarrow> 'v \<Rightarrow> (nat \<times> 'v) list" where
  "map_emplace [] k v = [(k, v)]"
| "map_emplace ((k', v') # m) k v =
     (if k < k' then (k, v) # (k', v') # m
      else if k = k' then (k', v') # m
      else (k', v') # map_emplace m k v)"

text \<open>\<open>account_auths[k] += votes\<close> on a \<open>flat_map\<close> of \<open>uint16_t\<close> weights: a missing key starts at 0.\<close>

fun auth_add :: "(nat \<times> nat) list \<Rightarrow> nat \<Rightarrow> nat \<Rightarrow> (nat \<times> nat) list" where
  "auth_add [] k v = [(k, v mod 2 ^ 16)]"
| "auth_add ((k', w) # m) k v =
     (if k < k' then (k, v mod 2 ^ 16) # (k', w) # m
      else if k = k' then (k', (w + v) mod 2 ^ 16) # m
      else (k', w) # auth_add m k v)"

text \<open>
  The second loop of the legacy branch (lines 213-219 and 293-299): one weight per entry
  of \<open>weights\<close>, truncated to \<open>uint16_t\<close>, added to the key and to the 32-bit threshold.
\<close>

fun legacy_weights_loop :: "nat \<Rightarrow> (account_id_type \<times> nat) list \<Rightarrow> authority \<Rightarrow> authority" where
  "legacy_weights_loop bits_to_drop [] a = a"
| "legacy_weights_loop bits_to_drop ((acct, weight) # weights) a =
     (let votes = max (weight div 2 ^ bits_to_drop) 1 mod 2 ^ 16
      in legacy_weights_loop bits_to_drop weights
           (a\<lparr>account_auths := auth_add (account_auths a) acct votes,
              weight_threshold := (weight_threshold a + votes) mod 2 ^ 32\<rparr>))"

text \<open>
  The legacy branch of \<open>update_active_witnesses\<close> (lines 198-222) and of
  \<open>update_active_committee_members\<close> (lines 279-302): the two blocks are the same text up
  to the type of the members.  \<open>members\<close> pairs each elected object's account with its
  entry of \<open>_vote_tally_buffer\<close>, in the order of the elected list.
\<close>

definition legacy_authority :: "(account_id_type \<times> nat) list \<Rightarrow> authority \<Rightarrow> authority" where
  "legacy_authority members a0 =
     (let total_votes = fold (\<lambda>(acct, v) t. add_uint64 t v) members 0;
          weights = fold (\<lambda>(acct, v) m. map_emplace m acct v) members [];
          a = a0\<lparr>weight_threshold := 0, account_auths := [], key_auths := [], address_auths := []\<rparr>;
          bits_to_drop = nat (max (int (find_msb total_votes) - 15) 0);
          a = legacy_weights_loop bits_to_drop weights a;
          a = a\<lparr>weight_threshold := weight_threshold a div 2\<rparr>
      in a\<lparr>weight_threshold := (weight_threshold a + 1) mod 2 ^ 32\<rparr>)"

text \<open>
  The loop of \<open>update_active_witnesses\<close> (lines 173-176): \<open>stake_tally\<close> is a
  \<open>share_type\<close>, so adding a bucket can throw.
\<close>

function witness_count_loop :: "nat list \<Rightarrow> share_type \<Rightarrow> nat \<Rightarrow> share_type \<Rightarrow> error + nat" where
  "witness_count_loop hist stake_target witness_count stake_tally =
     (if witness_count < length hist - 1 \<and> stake_tally \<le> stake_target
      then (case safe_add stake_tally (to_int64 (hist ! Suc witness_count)) of
              Inl e \<Rightarrow> Inl e
            | Inr stake_tally' \<Rightarrow>
                witness_count_loop hist stake_target (Suc witness_count) stake_tally')
      else Inr witness_count)"
  by pat_completeness auto
termination
  by (relation "measure (\<lambda>(hist, t, c, s). length hist - 1 - c)") auto

text \<open>
  Lines 162-177 of \<open>update_active_witnesses\<close>: the number of witness pairs the stake asks
  for.  \<open>assert\<close> is a failing branch of the model.
\<close>

definition desired_witness_count :: "database \<Rightarrow> error + nat" where
  "desired_witness_count db =
     (if \<not> length (witness_count_histogram_buffer db) > 0 then Inl assertion_failure
      else
        let stake_target =
              to_int64 (sub_uint64 (total_voting_stake db) (witness_count_histogram_buffer db ! 0) div 2)
        in if stake_target > 0
           then witness_count_loop (witness_count_histogram_buffer db) stake_target 0 0
           else Inr 0)"

text \<open>\<open>database::update_active_witnesses\<close> (lines 160-243).\<close>

definition update_active_witnesses :: "externals \<Rightarrow> database \<Rightarrow> error + database" where
  "update_active_witnesses ext db =
     bind_r (desired_witness_count db) (\<lambda>witness_count.
       let wits = sort_votable_objects (vote_tally_buffer db) wit_vote_id (witness_index db)
                    (max (witness_count * 2 + 1) (min_witness_count (cpo db)));
           all_witnesses =
             map (\<lambda>wit. wit\<lparr>wit_total_votes := vote_tally_buffer db ! wit_vote_id wit\<rparr>)
               (witness_index db);
           members = map (\<lambda>wit. (witness_account wit, vote_tally_buffer db ! wit_vote_id wit)) wits;
           a = (if head_block_time db < HARDFORK_533_TIME ext
                then legacy_authority members (witness_account_active db)
                else vote_counter_finish ext members (witness_account_active db))
       in Inr (db\<lparr>witness_index := all_witnesses,
                  witness_account_active := a,
                  gpo := (gpo db)\<lparr>active_witnesses := map wit_id wits\<rparr>\<rparr>))"

text \<open>
  The loop of \<open>update_active_committee_members\<close> (lines 256-259): here \<open>stake_tally\<close>
  is a \<open>uint64_t\<close>, which wraps, and is compared with the \<open>share_type\<close> target as an
  \<open>int64_t\<close>.
\<close>

function committee_count_loop :: "nat list \<Rightarrow> share_type \<Rightarrow> nat \<Rightarrow> nat \<Rightarrow> nat" where
  "committee_count_loop hist stake_target committee_member_count stake_tally =
     (if committee_member_count < length hist - 1 \<and> to_int64 stake_tally \<le> stake_target
      then committee_count_loop hist stake_target (Suc committee_member_count)
             (add_uint64 stake_tally (hist ! Suc committee_member_count))
      else committee_member_count)"
  by pat_completeness auto
termination
  by (relation "measure (\<lambda>(hist, t, c, s). length hist - 1 - c)") auto

text \<open>\<open>database::update_active_committee_members\<close> (lines 245-322).\<close>

definition update_active_committee_members :: "externals \<Rightarrow> database \<Rightarrow> error + database" where
  "update_active_committee_members ext db =
     (if \<not> length (committee_count_histogram_buffer db) > 0 then Inl assertion_failure
      else
        let stake_target =
              to_int64 (sub_uint64 (total_voting_stake db) (witness_count_histogram_buffer db ! 0) div 2);
            committee_member_count =
              (if stake_target > 0
               then committee_count_loop (committee_count_histogram_buffer db) stake_target 0 0
               else 0);
            committee_members =
              sort_votable_objects (vote_tally_buffer db) cm_vote_id (committee_member_index db)
                (max (committee_member_count * 2 + 1) (min_committee_member_count (cpo db)));
            idx = map (\<lambda>del. if del \<in> set committee_members
                               then del\<lparr>cm_total_votes := vote_tally_buffer db ! cm_vote_id del\<rparr>
                               else del)
                    (committee_member_index db);
            members = map (\<lambda>del. (committee_member_account del, vote_tally_buffer db ! cm_vote_id del))
                        committee_members;
            a = (if head_block_time db < HARDFORK_533_TIME ext
                 then legacy_authority members (committee_account_active db)
                 else vote_counter_finish ext members (committee_account_active db));
            db1 = db\<lparr>committee_member_index := idx\<rparr>;
            db2 = (if committee_members \<noteq> []
                   then db1\<lparr>committee_account_active := a, relaxed_committee_account_active := a\<rparr>
                   else db1)
        in Inr (db2\<lparr>gpo := (gpo db2)\<lparr>active_committee_members := map cm_id committee_members\<rparr>\<rparr>))"

subsection \<open>Worker pay\<close>

text \<open>The comparison given to \<open>std::sort\<close> in \<open>pay_workers\<close> (lines 130-136).\<close>

definition worker_compare :: "externals \<Rightarrow> worker_object \<Rightarrow> worker_object \<Rightarrow> bool" where
  "worker_compare ext wa wb =
     (let wa_vote = approving_stake ext wa;
          wb_vote = approving_stake ext wb
      in if wa_vote \<noteq> wb_vote then wa_vote > wb_vote else worker_id wa < worker_id wb)"

definition std_sort :: "('o \<Rightarrow> 'o \<Rightarrow> bool) \<Rightarrow> 'o list \<Rightarrow> 'o list" where
  "std_sort cmp xs = foldr (insert_by cmp) xs []"

text \<open>
  Lines 141-148.  The difference of two \<open>time_point_sec\<close> is an \<open>fc::microseconds\<close>,
  whose \<open>count()\<close> is a signed number of microseconds; \<open>fc::days(1)\<close> is 86400000000 of
  them.  The product is taken in an \<open>fc::uint128\<close> and its low 64 bits become the
  \<open>share_type\<close>.
\<close>

definition requested_pay :: "database \<Rightarrow> worker_object \<Rightarrow> share_type" where
  "requested_pay db active_worker =
     (let elapsed = (int (head_block_time db) - int (last_budget_time (dpo db))) * 1000000
      in if elapsed \<noteq> 86400 * 1000000
         then
           (let pay = to_uint128 (daily_pay active_worker);
                pay = (pay * to_uint128 elapsed) mod 2 ^ 128;
                pay = pay div (86400 * 1000000)
            in to_int64 (pay mod 2 ^ 64))
         else daily_pay active_worker)"

text \<open>
  The loop of \<open>pay_workers\<close> (lines 138-157).  Besides the database and the budget it
  returns the trace of its calls of \<open>pay_worker\<close>: the worker, \<open>requested_pay\<close> and
  \<open>actual_pay\<close> of each iteration, first to last.
\<close>

fun pay_workers_loop ::
  "externals \<Rightarrow> worker_object list \<Rightarrow> database \<Rightarrow> share_type \<Rightarrow>
     error + (database \<times> share_type \<times> (worker_object \<times> share_type \<times> share_type) list)" where
  "pay_workers_loop ext [] db budget = Inr (db, budget, [])"
| "pay_workers_loop ext (active_worker # rest) db budget =
     (if \<not> budget > 0 then Inr (db, budget, [])
      else
        let requested = requested_pay db active_worker;
            actual_pay = min budget requested
        in bind_r (pay_worker ext active_worker actual_pay db) (\<lambda>db1.
           bind_r (safe_sub budget actual_pay) (\<lambda>budget1.
           bind_r (pay_workers_loop ext rest db1 budget1) (\<lambda>(db2, budget2, paid).
             Inr (db2, budget2, (active_worker, requested, actual_pay) # paid)))))"

text \<open>\<open>database::pay_workers\<close> (lines 117-158).\<close>

definition active_workers :: "externals \<Rightarrow> database \<Rightarrow> worker_object list" where
  "active_workers ext db =
     std_sort (worker_compare ext)
       (filter (\<lambda>w. is_active ext w (head_block_time db) \<and> approving_stake ext w > 0)
          (worker_index db))"

definition pay_workers ::
  "externals \<Rightarrow> database \<Rightarrow> share_type \<Rightarrow>
     error + (database \<times> share_type \<times> (worker_object \<times> share_type \<times> share_type) list)" where
  "pay_workers ext db budget = pay_workers_loop ext (active_workers ext db) db budget"

subsection \<open>The budget\<close>

text \<open>
  Lines 355-362 of \<open>initialize_budget_record\<close>: the budget of the period, computed in
  an \<open>fc::uint128\<close> whose arithmetic wraps.  \<open>dt\<close> is cast to \<open>uint64_t\<close>, and the
  rounding term \<open>(uint64_t(1) << CYCLE_RATE_BITS) - 1\<close> is a \<open>uint64_t\<close>.
\<close>

definition budget_u128 :: "externals \<Rightarrow> share_type \<Rightarrow> int \<Rightarrow> nat" where
  "budget_u128 ext reserve dt =
     (let b = to_uint128 reserve;
          b = (b * to_uint64 dt) mod 2 ^ 128;
          b = (b * GRAPHENE_CORE_ASSET_CYCLE_RATE ext) mod 2 ^ 128;
          b = (b + sub_uint64 (2 ^ GRAPHENE_CORE_ASSET_CYCLE_RATE_BITS ext mod 2 ^ 64) 1) mod 2 ^ 128
      in b div 2 ^ GRAPHENE_CORE_ASSET_CYCLE_RATE_BITS ext)"

text \<open>
  \<open>database::initialize_budget_record\<close> (lines 324-370).  On the early return only the
  first four fields of \<open>rec\<close> are assigned.
\<close>

definition initialize_budget_record ::
  "externals \<Rightarrow> database \<Rightarrow> time_point_sec \<Rightarrow> budget_record \<Rightarrow> error + budget_record" where
  "initialize_budget_record ext db now rec0 =
     (let rec = rec0\<lparr>from_initial_reserve := reserved ext db,
                    from_accumulated_fees := accumulated_fees (core_dd db),
                    from_unused_witness_budget := dpo_witness_budget (dpo db)\<rparr>
      in if last_budget_time (dpo db) = 0 \<or> now \<le> last_budget_time (dpo db)
         then Inr (rec\<lparr>time_since_last_budget := 0\<rparr>)
         else
           let dt = int now - int (last_budget_time (dpo db));
               rec = rec\<lparr>time_since_last_budget := to_uint64 dt\<rparr>
           in bind_r (safe_add (from_initial_reserve rec) (accumulated_fees (core_dd db))) (\<lambda>reserve.
              bind_r (safe_add reserve (dpo_witness_budget (dpo db))) (\<lambda>reserve.
                if budget_u128 ext reserve dt < to_uint128 reserve
                then Inr (rec\<lparr>total_budget := to_int64 (budget_u128 ext reserve dt mod 2 ^ 64)\<rparr>)
                else Inr (rec\<lparr>total_budget := reserve\<rparr>))))"

text \<open>
  The local values of \<open>process_budget\<close>, one definition each.  Line 385:
  \<open>time_to_maint\<close>, the seconds from the head block to the next maintenance.  Line 398:
  \<open>blocks_to_maint\<close>, in \<open>uint64_t\<close> arithmetic.  Line 407: the witness budget asked for,
  an \<open>int64_t\<close> times a \<open>uint64_t\<close>, which is a \<open>uint64_t\<close>, stored in a \<open>share_type\<close>.
  Lines 413-415: the worker budget of the period in an \<open>fc::uint128\<close>.
\<close>

definition time_to_maint :: "database \<Rightarrow> int" where
  "time_to_maint db = int (next_maintenance_time (dpo db)) - int (head_block_time db)"

definition blocks_to_maint :: "database \<Rightarrow> nat" where
  "blocks_to_maint db =
     sub_uint64 (add_uint64 (to_uint64 (time_to_maint db)) (block_interval (parameters (gpo db)))) 1
       div block_interval (parameters (gpo db))"

definition requested_witness_budget_of :: "database \<Rightarrow> share_type" where
  "requested_witness_budget_of db =
     to_int64 ((to_uint64 (witness_pay_per_block (parameters (gpo db))) * blocks_to_maint db) mod 2 ^ 64)"

definition worker_budget_u128 :: "database \<Rightarrow> nat" where
  "worker_budget_u128 db =
     (let w = to_uint128 (worker_budget_per_day (parameters (gpo db)));
          w = (w * to_uint64 (time_to_maint db)) mod 2 ^ 128
      in w div (60 * 60 * 24))"

text \<open>
  Lines 417-421: the worker budget is the funds still available when the budget of the period
  is at least that much, and the budget of the period, narrowed to 64 bits, otherwise.
\<close>

definition worker_budget_of :: "database \<Rightarrow> share_type \<Rightarrow> share_type" where
  "worker_budget_of db available_funds =
     (if worker_budget_u128 db \<ge> to_uint128 available_funds then available_funds
      else to_int64 (worker_budget_u128 db mod 2 ^ 64))"

text \<open>
  The sum of lines 430-434, which the \<open>assert\<close> of lines 440-446 takes again: five
  \<open>share_type\<close> values, added and subtracted from left to right with the overflow check.
\<close>

definition budget_balance ::
  "share_type \<Rightarrow> share_type \<Rightarrow> share_type \<Rightarrow> share_type \<Rightarrow> share_type \<Rightarrow> error + share_type" where
  "budget_balance a b c d e =
     bind_r (safe_add a b) (\<lambda>x.
     bind_r (safe_sub x c) (\<lambda>x.
     bind_r (safe_sub x d) (\<lambda>x. safe_sub x e)))"

text \<open>
  \<open>database::process_budget\<close> (lines 375-469).  The two \<open>modify\<close> calls and the \<open>create\<close>
  at its end act on the database as \<open>pay_workers\<close> left it; the \<open>assert\<close> inside the first
  reads \<open>accumulated_fees\<close> and \<open>dpo.witness_budget\<close> there.  An \<open>assert\<close> that fails is a
  failing branch of the model.
\<close>

definition process_budget :: "externals \<Rightarrow> database \<Rightarrow> error + database" where
  "process_budget ext db =
     (let now = head_block_time db
      in if \<not> time_to_maint db > 0 then Inl assertion_failure
         else if \<not> block_interval (parameters (gpo db)) > 0 then Inl assertion_failure
         else
           bind_r (initialize_budget_record ext db now budget_record_init) (\<lambda>rec.
           let available_funds = total_budget rec;
               witness_budget0 = requested_witness_budget_of db;
               rec = rec\<lparr>requested_witness_budget := witness_budget0\<rparr>;
               witness_budget1 = min witness_budget0 available_funds;
               rec = rec\<lparr>witness_budget := witness_budget1\<rparr>
           in bind_r (safe_sub available_funds witness_budget1) (\<lambda>available_funds.
              let worker_budget1 = worker_budget_of db available_funds;
                  rec = rec\<lparr>worker_budget := worker_budget1\<rparr>
              in bind_r (safe_sub available_funds worker_budget1) (\<lambda>available_funds.
                 bind_r (pay_workers ext db worker_budget1) (\<lambda>(db1, leftover, paid).
                 let rec = rec\<lparr>leftover_worker_funds := leftover\<rparr>
                 in bind_r (safe_add available_funds leftover) (\<lambda>available_funds.
                    bind_r (budget_balance (witness_budget rec) (worker_budget rec)
                              (leftover_worker_funds rec) (from_accumulated_fees rec)
                              (from_unused_witness_budget rec)) (\<lambda>delta.
                    let rec = rec\<lparr>supply_delta := delta\<rparr>
                    in bind_r (safe_add (current_supply (core_dd db1)) (supply_delta rec)) (\<lambda>supply.
                       bind_r (budget_balance witness_budget1 worker_budget1 leftover
                                 (accumulated_fees (core_dd db1)) (dpo_witness_budget (dpo db1))) (\<lambda>e.
                         if \<not> supply_delta rec = e then Inl assertion_failure
                         else Inr (db1\<lparr>core_dd := (core_dd db1)\<lparr>current_supply := supply,
                                                                 accumulated_fees := 0\<rparr>,
                                       dpo := (dpo db1)\<lparr>dpo_witness_budget := witness_budget1,
                                                         last_budget_time := now\<rparr>,
                                       budget_records :=
                                         budget_records db1 @ [(head_block_time db1, rec)]\<rparr>
                                  ))))))))))"

subsection \<open>The FBA fee split\<close>

text \<open>
  Modelled from the spec: \<open>database::adjust_balance\<close> (db_balance.cpp) is not among the
  sources.  The spec has the split ``credit'' an amount to an account; the model adds it
  to the account's balance of the core asset, a \<open>share_type\<close>.
\<close>

definition adjust_balance :: "database \<Rightarrow> account_id_type \<Rightarrow> share_type \<Rightarrow> error + database" where
  "adjust_balance db account delta =
     bind_r (safe_add (core_balances db account) delta) (\<lambda>b.
       Inr (db\<lparr>core_balances := (core_balances db)(account := b)\<rparr>))"

definition push_applied_operation :: "database \<Rightarrow> fba_distribute_operation \<Rightarrow> database" where
  "push_applied_operation db vop = db\<lparr>applied_operations := applied_operations db @ [vop]\<rparr>"

text \<open>
  The two shares of \<open>split_fba_balance\<close> (lines 558-566): the product is taken in an
  \<open>fc::uint128\<close>, divided by \<open>GRAPHENE_100_PERCENT\<close>, and its low 64 bits become the
  \<open>share_type\<close>.
\<close>

definition fba_share :: "externals \<Rightarrow> share_type \<Rightarrow> nat \<Rightarrow> share_type" where
  "fba_share ext fees pct =
     (let amount_128 = to_uint128 fees;
          amount_128 = (amount_128 * pct) mod 2 ^ 128;
          amount_128 = amount_128 div GRAPHENE_100_PERCENT ext
      in to_int64 (amount_128 mod 2 ^ 64))"

text \<open>
  \<open>split_fba_balance\<close> (lines 529-605).  \<open>FC_ASSERT\<close> throws; so does the lookup of an
  object that is not there and the dereference of an empty \<open>optional\<close>.
\<close>

definition split_fba_balance ::
  "externals \<Rightarrow> database \<Rightarrow> nat \<Rightarrow> nat \<Rightarrow> nat \<Rightarrow> nat \<Rightarrow> error + database" where
  "split_fba_balance ext db fba_id network_pct designated_asset_buyback_pct designated_asset_issuer_pct =
     (if network_pct + designated_asset_buyback_pct + designated_asset_issuer_pct
           \<noteq> GRAPHENE_100_PERCENT ext
      then Inl assert_exception
      else case fba_accumulators db fba_id of
        None \<Rightarrow> Inl object_not_found
      | Some fba \<Rightarrow>
          if accumulated_fba_fees fba = 0 then Inr db
          else if \<not> is_configured ext fba db
          then bind_r (safe_sub (current_supply (core_dd db)) (accumulated_fba_fees fba)) (\<lambda>supply.
                 Inr (db\<lparr>core_dd := (core_dd db)\<lparr>current_supply := supply\<rparr>,
                         fba_accumulators :=
                           (fba_accumulators db)(fba_id := Some (fba\<lparr>accumulated_fba_fees := 0\<rparr>))\<rparr>))
          else
            let buyback_amount = fba_share ext (accumulated_fba_fees fba) designated_asset_buyback_pct;
                issuer_amount = fba_share ext (accumulated_fba_fees fba) designated_asset_issuer_pct
            in bind_r (safe_add buyback_amount issuer_amount) (\<lambda>both.
               if \<not> both \<le> accumulated_fba_fees fba then Inl assert_exception
               else
                 bind_r (safe_sub (accumulated_fba_fees fba) both) (\<lambda>network_amount.
                 case designated_asset fba of
                   None \<Rightarrow> Inl invalid_optional
                 | Some asset_id \<Rightarrow>
                 (case assets db asset_id of
                   None \<Rightarrow> Inl object_not_found
                 | Some designated \<Rightarrow>
                     bind_r (if network_amount \<noteq> 0
                             then bind_r (safe_sub (current_supply (core_dd db)) network_amount) (\<lambda>supply.
                                    Inr (db\<lparr>core_dd := (core_dd db)\<lparr>current_supply := supply\<rparr>\<rparr>))
                             else Inr db) (\<lambda>db1.
                     case buyback_account designated of
                       None \<Rightarrow> Inl invalid_optional
                     | Some buyback \<Rightarrow>
                         bind_r (if buyback_amount \<noteq> 0
                                 then bind_r (adjust_balance db1 buyback buyback_amount) (\<lambda>db'.
                                        Inr (push_applied_operation db'
                                               \<lparr>op_account_id = buyback, op_fba_id = fba_id,
                                                op_amount = buyback_amount\<rparr>))
                                 else Inr db1) (\<lambda>db2.
                         bind_r (if issuer_amount \<noteq> 0
                                 then bind_r (adjust_balance db2 (issuer designated) issuer_amount) (\<lambda>db'.
                                        Inr (push_applied_operation db'
                                               \<lparr>op_account_id = issuer designated, op_fba_id = fba_id,
                                                op_amount = issuer_amount\<rparr>))
                                 else Inr db2) (\<lambda>db3.
                           Inr (db3\<lparr>fba_accumulators :=
                                      (fba_accumulators db3)
                                        (fba_id := Some (fba\<lparr>accumulated_fba_fees := 0\<rparr>))\<rparr>))))))))"

subsection \<open>The vote tally\<close>

text \<open>\<open>std::vector::resize\<close>: new places hold zero.\<close>

definition resize :: "nat list \<Rightarrow> nat \<Rightarrow> nat list" where
  "resize xs n = take n xs @ replicate (n - length xs) 0"

text \<open>The constructor of \<open>vote_tally_helper\<close> (lines 732-739).\<close>

definition vote_tally_helper_init :: "database \<Rightarrow> database" where
  "vote_tally_helper_init d =
     d\<lparr>vote_tally_buffer := resize (vote_tally_buffer d) (next_available_vote_id (gpo d)),
       witness_count_histogram_buffer :=
         resize (witness_count_histogram_buffer d)
           (maximum_witness_count (parameters (gpo d)) div 2 + 1),
       committee_count_histogram_buffer :=
         resize (committee_count_histogram_buffer d)
           (maximum_committee_count (parameters (gpo d)) div 2 + 1),
       total_voting_stake := 0\<rparr>"

definition get_account :: "database \<Rightarrow> account_id_type \<Rightarrow> error + account_object" where
  "get_account d aid =
     (case find (\<lambda>a. acc_id a = aid) (account_index d) of
        None \<Rightarrow> Inl object_not_found
      | Some a \<Rightarrow> Inr a)"

text \<open>
  \<open>vote_tally_helper::operator()\<close> (lines 741-790).  The statistics object and the
  cashback vesting balance are looked up by id in the C++; the model keeps the two amounts
  read from them with the account.  The three amounts are \<open>int64_t\<close> and their sum becomes
  a \<open>uint64_t\<close>.
\<close>

definition vote_tally_helper ::
  "externals \<Rightarrow> database \<Rightarrow> account_object \<Rightarrow> error + database" where
  "vote_tally_helper ext d stake_account =
     (let props = gpo d
      in if count_non_member_votes (parameters props) \<or> is_member ext stake_account (head_block_time d)
         then
           bind_r (if voting_account (options stake_account) = GRAPHENE_PROXY_TO_SELF_ACCOUNT ext
                   then Inr stake_account
                   else get_account d (voting_account (options stake_account))) (\<lambda>opinion_account.
             let voting_stake =
                   to_uint64 (acc_total_core_in_orders stake_account
                              + (case cashback_vb stake_account of Some b \<Rightarrow> b | None \<Rightarrow> 0)
                              + core_balances d (acc_id stake_account));
                 d1 = d\<lparr>vote_tally_buffer :=
                          fold (\<lambda>offset buf. if offset < length buf
                                              then buf[offset := add_uint64 (buf ! offset) voting_stake]
                                              else buf)
                            (votes (options opinion_account)) (vote_tally_buffer d)\<rparr>;
                 d2 = (if num_witness (options opinion_account) \<le> maximum_witness_count (parameters props)
                       then
                         let offset = min (num_witness (options opinion_account) div 2)
                                        (length (witness_count_histogram_buffer d1) - 1) mod 2 ^ 16
                         in d1\<lparr>witness_count_histogram_buffer :=
                                 (witness_count_histogram_buffer d1)
                                   [offset := add_uint64 (witness_count_histogram_buffer d1 ! offset)
                                                voting_stake]\<rparr>
                       else d1);
                 d3 = (if num_committee (options opinion_account)
                            \<le> maximum_committee_count (parameters props)
                       then
                         let offset = min (num_committee (options opinion_account) div 2)
                                        (length (committee_count_histogram_buffer d2) - 1) mod 2 ^ 16
                         in d2\<lparr>committee_count_histogram_buffer :=
                                 (committee_count_histogram_buffer d2)
                                   [offset := add_uint64 (committee_count_histogram_buffer d2 ! offset)
                                                voting_stake]\<rparr>
                       else d2)
             in Inr (d3\<lparr>total_voting_stake := add_uint64 (total_voting_stake d3) voting_stake\<rparr>))
         else Inr d)"

section \<open>Example states\<close>

text \<open>
  A set of values for the parameters, and a small database, on which the theorems below
  are run.  The constants are those of the upstream chain; the worker variant of the
  example leaves the database as it is, as a vesting worker leaves the core supply.
\<close>

definition ext0 :: externals where
  "ext0 =
     \<lparr>GRAPHENE_100_PERCENT = 10000,
      GRAPHENE_1_PERCENT = 100,
      GRAPHENE_CORE_ASSET_CYCLE_RATE = 17,
      GRAPHENE_CORE_ASSET_CYCLE_RATE_BITS = 32,
      GRAPHENE_PROXY_TO_SELF_ACCOUNT = 5,
      HARDFORK_533_TIME = 1456250400,
      reserved = (\<lambda>db. 1000000000000000 - current_supply (core_dd db)),
      is_active = (\<lambda>w now. True),
      approving_stake = (\<lambda>w. int (total_votes_for w) - int (total_votes_against w)),
      pay_worker = (\<lambda>w pay db. Inr db),
      is_member = (\<lambda>a now. True),
      is_configured = (\<lambda>fba db. designated_asset fba \<noteq> None),
      vote_counter_finish = (\<lambda>members a. a)\<rparr>"

definition authority0 :: authority where
  "authority0 = \<lparr>weight_threshold = 1, account_auths = [], key_auths = [], address_auths = []\<rparr>"

definition db0 :: database where
  "db0 =
     \<lparr>gpo = \<lparr>parameters = \<lparr>block_interval = 5, maximum_witness_count = 3,
                             maximum_committee_count = 3, witness_pay_per_block = 1000,
                             worker_budget_per_day = 1000, count_non_member_votes = True\<rparr>,
              next_available_vote_id = 10, active_committee_members = [], active_witnesses = []\<rparr>,
      dpo = \<lparr>dgp_time = 1000000, next_maintenance_time = 1043200, last_budget_time = 913600,
              dpo_witness_budget = 0\<rparr>,
      cpo = \<lparr>min_committee_member_count = 3, min_witness_count = 3\<rparr>,
      core_dd = \<lparr>current_supply = 1000000000000, accumulated_fees = 0\<rparr>,
      witness_index = [],
      committee_member_index = [],
      worker_index = [],
      account_index = [],
      vote_tally_buffer = replicate 10 0,
      witness_count_histogram_buffer = [0, 0],
      committee_count_histogram_buffer = [0, 0],
      total_voting_stake = 0,
      witness_account_active = authority0,
      committee_account_active = authority0,
      relaxed_committee_account_active = authority0,
      fba_accumulators = (\<lambda>i. None),
      assets = (\<lambda>i. None),
      core_balances = (\<lambda>a. 0),
      applied_operations = [],
      budget_records = []\<rparr>"

definition w1 :: witness_object where
  "w1 = \<lparr>wit_id = 1, witness_account = 11, wit_vote_id = 1, wit_total_votes = 0\<rparr>"

definition w2 :: witness_object where
  "w2 = \<lparr>wit_id = 2, witness_account = 12, wit_vote_id = 2, wit_total_votes = 0\<rparr>"

definition w3 :: witness_object where
  "w3 = \<lparr>wit_id = 3, witness_account = 13, wit_vote_id = 3, wit_total_votes = 0\<rparr>"

definition c1 :: committee_member_object where
  "c1 = \<lparr>cm_id = 1, committee_member_account = 21, cm_vote_id = 4, cm_total_votes = 0\<rparr>"

definition c2 :: committee_member_object where
  "c2 = \<lparr>cm_id = 2, committee_member_account = 22, cm_vote_id = 5, cm_total_votes = 0\<rparr>"

definition c3 :: committee_member_object where
  "c3 = \<lparr>cm_id = 3, committee_member_account = 23, cm_vote_id = 6, cm_total_votes = 0\<rparr>"

definition db_votes :: database where
  "db_votes = db0\<lparr>witness_index := [w1, w2, w3], committee_member_index := [c1, c2, c3],
     vote_tally_buffer := [0, 100, 70000, 3, 5, 5, 90000, 0, 0, 0]\<rparr>"

definition db_stake :: database where
  "db_stake = db_votes\<lparr>cpo := \<lparr>min_committee_member_count = 1, min_witness_count = 1\<rparr>,
     total_voting_stake := 100,
     witness_count_histogram_buffer := [0, 100],
     committee_count_histogram_buffer := [100, 0]\<rparr>"

definition voter :: account_object where
  "voter = \<lparr>acc_id = 30,
            options = \<lparr>voting_account = 5, num_witness = 5, num_committee = 5, votes = [1]\<rparr>,
            acc_total_core_in_orders = 0,
            cashback_vb = None\<rparr>"

definition db_tally :: database where
  "db_tally = vote_tally_helper_init
     (db0\<lparr>account_index := [voter], core_balances := (\<lambda>a. if a = 30 then 100 else 0)\<rparr>)"

definition fba0 :: fba_accumulator_object where
  "fba0 = \<lparr>accumulated_fba_fees = 1000, designated_asset = Some 1\<rparr>"

definition db_fba :: database where
  "db_fba = db0\<lparr>fba_accumulators := (\<lambda>i. if i = 0 then Some fba0 else None),
               assets := (\<lambda>i. if i = 1 then Some \<lparr>issuer = 40, buyback_account = Some 41\<rparr> else None)\<rparr>"

definition wk1 :: worker_object where
  "wk1 = \<lparr>worker_id = 1, daily_pay = 100, vote_for = 7, vote_against = 8,
          total_votes_for = 10, total_votes_against = 0\<rparr>"

definition wk2 :: worker_object where
  "wk2 = \<lparr>worker_id = 2, daily_pay = 100, vote_for = 7, vote_against = 8,
          total_votes_for = 30, total_votes_against = 0\<rparr>"

definition wk3 :: worker_object where
  "wk3 = \<lparr>worker_id = 3, daily_pay = 100, vote_for = 7, vote_against = 8,
          total_votes_for = 20, total_votes_against = 0\<rparr>"

definition db_workers :: database where
  "db_workers = db0\<lparr>dpo := (dpo db0)\<lparr>last_budget_time := 956800\<rparr>,
                   worker_index := [wk1, wk2, wk3]\<rparr>"

definition db_budget :: database where
  "db_budget = db0\<lparr>core_dd := \<lparr>current_supply = 1000000000000, accumulated_fees = 300\<rparr>,
                  dpo := (dpo db0)\<lparr>dpo_witness_budget := 200\<rparr>\<rparr>"

text \<open>
  Modelled from the spec: the refund variant of \<open>pay_worker\<close>, whose code is not among the
  sources.  Section 4.6 names it refund-to-reserve: the pay goes back to the reserve, which
  is the maximum supply less \<open>current_supply\<close>, so \<open>current_supply\<close> goes down by the pay.
\<close>

definition ext_refund :: externals where
  "ext_refund =
     ext0\<lparr>pay_worker :=
            (\<lambda>w pay db. Inr (db\<lparr>core_dd := (core_dd db)\<lparr>current_supply :=
                                                       current_supply (core_dd db) - pay\<rparr>\<rparr>))\<rparr>"


section \<open>Properties\<close>

subsection \<open>Facts about sorting\<close>

lemma vote_compare_iff:
  "vote_compare t vid a b \<longleftrightarrow>
     (to_int64 (t ! vid a) > to_int64 (t ! vid b)
      \<or> (to_int64 (t ! vid a) = to_int64 (t ! vid b) \<and> vid a < vid b))"
  by (auto simp: vote_compare_def Let_def)

lemma set_insert_by: "set (insert_by cmp x xs) = insert x (set xs)"
  by (induction xs) auto

lemma length_insert_by: "length (insert_by cmp x xs) = Suc (length xs)"
  by (induction xs) auto

lemma set_partial_sort: "set (partial_sort cmp k xs) = set xs"
  by (induction xs) (auto simp: partial_sort_def set_insert_by)

lemma length_partial_sort: "length (partial_sort cmp k xs) = length xs"
  by (induction xs) (auto simp: partial_sort_def length_insert_by)

lemma sorted_insert_by_vote:
  assumes "sorted_wrt (\<lambda>a b. \<not> vote_compare t vid b a) xs"
  shows "sorted_wrt (\<lambda>a b. \<not> vote_compare t vid b a) (insert_by (vote_compare t vid) x xs)"
  using assms
proof (induction xs)
  case Nil
  then show ?case by simp
next
  case (Cons y ys)
  show ?case
  proof (cases "vote_compare t vid y x")
    case True
    have "\<forall>z \<in> set ys. \<not> vote_compare t vid z y"
      using Cons.prems by simp
    moreover have "\<not> vote_compare t vid x y"
      using True by (auto simp: vote_compare_iff)
    ultimately show ?thesis
      using True Cons by (auto simp: set_insert_by)
  next
    case False
    have "\<forall>z \<in> set ys. \<not> vote_compare t vid z x"
    proof
      fix z assume "z \<in> set ys"
      then have "\<not> vote_compare t vid z y" using Cons.prems by simp
      with False show "\<not> vote_compare t vid z x"
        by (auto simp: vote_compare_iff)
    qed
    with False Cons.prems show ?thesis by simp
  qed
qed

lemma sorted_partial_sort_vote:
  "sorted_wrt (\<lambda>a b. \<not> vote_compare t vid b a) (partial_sort (vote_compare t vid) k xs)"
proof (induction xs)
  case Nil
  then show ?case by (simp add: partial_sort_def)
next
  case (Cons x xs)
  then show ?case
    using sorted_insert_by_vote [of t vid "partial_sort (vote_compare t vid) k xs" x]
    by (simp add: partial_sort_def)
qed

lemma length_sort_votable_objects:
  "length (sort_votable_objects t vid objs k) = min k (length objs)"
  by (simp add: sort_votable_objects_def Let_def length_partial_sort)

lemma retained_before_omitted:
  assumes y: "y \<in> set (sort_votable_objects t vid objs k)"
    and x: "x \<in> set objs"
    and xo: "x \<notin> set (sort_votable_objects t vid objs k)"
  shows "\<not> vote_compare t vid x y"
proof -
  let ?s = "partial_sort (vote_compare t vid) (min k (length objs)) objs"
  let ?c = "min k (length objs)"
  have res: "sort_votable_objects t vid objs k = take ?c ?s"
    by (simp add: sort_votable_objects_def Let_def)
  have srt: "sorted_wrt (\<lambda>a b. \<not> vote_compare t vid b a) ?s"
    by (rule sorted_partial_sort_vote)
  from y res obtain i where i: "i < ?c" "i < length ?s" "y = ?s ! i"
    by (auto simp: in_set_conv_nth)
  from x have "x \<in> set ?s" by (simp add: set_partial_sort)
  then obtain j where j: "j < length ?s" "x = ?s ! j"
    by (auto simp: in_set_conv_nth)
  have "\<not> j < ?c"
  proof
    assume "j < ?c"
    with j have "x \<in> set (take ?c ?s)"
      by (auto simp: in_set_conv_nth intro!: exI [of _ j])
    with xo res show False by simp
  qed
  with i(1) have "i < j" by linarith
  with srt j i show ?thesis
    by (auto simp: sorted_wrt_iff_nth_less)
qed

subsection \<open>Facts about results and errors\<close>

lemma bind_r_Inr: "bind_r m f = Inr y \<longleftrightarrow> (\<exists>x. m = Inr x \<and> f x = Inr y)"
  by (cases m) (simp_all add: bind_r_def)

lemma bind_r_simps: "bind_r (Inr x) f = f x" "bind_r (Inl e) f = Inl e"
  by (simp_all add: bind_r_def)

subsection \<open>Facts about the example states\<close>

lemma desired_witness_count_db0: "desired_witness_count (db0\<lparr>witness_index := ws\<rparr>) = Inr 0"
  by (simp add: desired_witness_count_def db0_def sub_uint64_def to_int64_def)

declare find_msb.simps [simp del]

declare witness_count_loop.simps [simp del]

declare committee_count_loop.simps [simp del]

subsection \<open>Facts about the legacy authority\<close>

lemma find_msb_bounds: "0 < n \<Longrightarrow> 2 ^ find_msb n \<le> n \<and> n < 2 ^ Suc (find_msb n)"
proof (induction n rule: find_msb.induct)
  case (1 n)
  show ?case
  proof (cases "n < 2")
    case True
    with 1 show ?thesis by (simp add: find_msb.simps [of n])
  next
    case False
    then have "0 < n div 2" by simp
    with 1 False have ih: "2 ^ find_msb (n div 2) \<le> n div 2" "n div 2 < 2 ^ Suc (find_msb (n div 2))"
      by simp_all
    have fm: "find_msb n = Suc (find_msb (n div 2))"
      using False by (simp add: find_msb.simps [of n])
    from ih show ?thesis unfolding fm by (simp; linarith)
  qed
qed

lemma shifted_weight_bound:
  assumes "w \<le> tv"
  shows "w div 2 ^ nat (max (int (find_msb tv) - 15) 0) < 2 ^ 16"
proof (cases "tv = 0")
  case True
  with assms show ?thesis by simp
next
  case False
  then have ub: "tv < 2 ^ Suc (find_msb tv)"
    using find_msb_bounds [of tv] by simp
  show ?thesis
  proof (cases "find_msb tv \<le> 15")
    case True
    then have "(2::nat) ^ Suc (find_msb tv) \<le> 2 ^ 16"
      by (intro power_increasing) simp_all
    with ub assms have "w < 2 ^ 16" by linarith
    moreover have "nat (max (int (find_msb tv) - 15) 0) = 0" using True by simp
    ultimately show ?thesis by simp
  next
    case False
    define b where "b = find_msb tv - 15"
    have b: "nat (max (int (find_msb tv) - 15) 0) = b" "Suc (find_msb tv) = b + 16"
      using False by (simp_all add: b_def)
    from ub assms have "w < 2 ^ (b + 16)" unfolding b by linarith
    then have "w < 2 ^ 16 * 2 ^ b" by (simp add: power_add mult.commute)
    then have "w div 2 ^ b < 2 ^ 16"
      by (simp add: less_mult_imp_div_less)
    then show ?thesis unfolding b .
  qed
qed

lemma fold_add_uint64:
  "fold (\<lambda>(acct, v) t. add_uint64 t v) members t0 = (t0 + sum_list (map snd members)) mod 2 ^ 64"
  if "t0 < 2 ^ 64"
  using that
proof (induction members arbitrary: t0)
  case Nil
  then show ?case by simp
next
  case (Cons m members)
  obtain acct v where m: "m = (acct, v)" by (cases m)
  have "add_uint64 t0 v < 2 ^ 64" by (simp add: add_uint64_def)
  from Cons.IH [OF this] show ?case
    by (simp add: m add_uint64_def mod_add_left_eq add.assoc)
qed

lemma set_map_emplace: "set (map_emplace m k v) \<subseteq> insert (k, v) (set m)"
  by (induction m k v rule: map_emplace.induct) auto

lemma keys_map_emplace: "fst ` set (map_emplace m k v) = insert k (fst ` set m)"
  by (induction m k v rule: map_emplace.induct) auto

lemma map_emplace_not_Nil: "map_emplace m k v \<noteq> []"
  by (induction m k v rule: map_emplace.induct) auto

lemma length_map_emplace: "length (map_emplace m k v) \<le> Suc (length m)"
  by (induction m k v rule: map_emplace.induct) auto

lemma sorted_map_emplace:
  "sorted_wrt (<) (map fst m) \<Longrightarrow> sorted_wrt (<) (map fst (map_emplace m k v))"
proof (induction m k v rule: map_emplace.induct)
  case (1 k v)
  then show ?case by simp
next
  case (2 k' v' m k v)
  then show ?case
    by (auto simp: keys_map_emplace [simplified image_iff] dest!: bspec)
qed

lemma weights_fold:
  assumes "sorted_wrt (<) (map fst m0)"
  shows "sorted_wrt (<) (map fst (fold (\<lambda>(acct, v) m. map_emplace m acct v) members m0))
    \<and> set (fold (\<lambda>(acct, v) m. map_emplace m acct v) members m0) \<subseteq> set m0 \<union> set members
    \<and> length (fold (\<lambda>(acct, v) m. map_emplace m acct v) members m0) \<le> length m0 + length members
    \<and> (m0 \<noteq> [] \<or> members \<noteq> [] \<longrightarrow> fold (\<lambda>(acct, v) m. map_emplace m acct v) members m0 \<noteq> [])"
  using assms
proof (induction members arbitrary: m0)
  case Nil
  then show ?case by simp
next
  case (Cons x members)
  obtain acct v where x: "x = (acct, v)" by (cases x)
  have s: "sorted_wrt (<) (map fst (map_emplace m0 acct v))"
    using Cons.prems by (rule sorted_map_emplace)
  from Cons.IH [OF s] set_map_emplace [of m0 acct v] length_map_emplace [of m0 acct v]
    map_emplace_not_Nil [of m0 acct v]
  show ?case by (auto simp: x)
qed

lemma auth_add_fresh:
  assumes "k \<notin> fst ` set m"
  shows "set (auth_add m k v) = insert (k, v mod 2 ^ 16) (set m)"
    and "sum_list (map snd (auth_add m k v)) = sum_list (map snd m) + v mod 2 ^ 16"
  using assms by (induction m k v rule: auth_add.induct) auto

lemma legacy_weights_loop_result:
  assumes "distinct (map fst ws)"
    and "fst ` set ws \<inter> fst ` set (account_auths a) = {}"
    and "weight_threshold a < 2 ^ 32"
  shows "set (account_auths (legacy_weights_loop b ws a))
           = set (account_auths a) \<union> (\<lambda>(k, w). (k, max (w div 2 ^ b) 1 mod 2 ^ 16)) ` set ws
    \<and> sum_list (map snd (account_auths (legacy_weights_loop b ws a)))
           = sum_list (map snd (account_auths a))
             + sum_list (map (\<lambda>(k, w). max (w div 2 ^ b) 1 mod 2 ^ 16) ws)
    \<and> weight_threshold (legacy_weights_loop b ws a)
           = (weight_threshold a + sum_list (map (\<lambda>(k, w). max (w div 2 ^ b) 1 mod 2 ^ 16) ws))
               mod 2 ^ 32"
  using assms
proof (induction ws arbitrary: a)
  case Nil
  then show ?case by simp
next
  case (Cons x ws)
  obtain k w where x: "x = (k, w)" by (cases x)
  define vt where "vt = max (w div 2 ^ b) 1 mod 2 ^ 16"
  define a1 where "a1 = a\<lparr>account_auths := auth_add (account_auths a) k vt,
              weight_threshold := (weight_threshold a + vt) mod 2 ^ 32\<rparr>"
  have step: "legacy_weights_loop b (x # ws) a = legacy_weights_loop b ws a1"
    by (simp add: x a1_def vt_def Let_def)
  have vt16: "vt mod 65536 = vt" by (simp add: vt_def)
  have fresh: "k \<notin> fst ` set (account_auths a)" using Cons.prems(2) by (auto simp: x)
  have au: "set (account_auths a1) = insert (k, vt) (set (account_auths a))"
    "sum_list (map snd (account_auths a1)) = sum_list (map snd (account_auths a)) + vt"
    using auth_add_fresh [OF fresh, of vt] by (simp_all add: a1_def vt16)
  have d: "distinct (map fst ws)" using Cons.prems(1) by simp
  have disj: "fst ` set ws \<inter> fst ` set (account_auths a1) = {}"
    using Cons.prems(1,2) by (auto simp: au x)
  have thr: "weight_threshold a1 < 2 ^ 32" by (simp add: a1_def)
  have t1: "weight_threshold a1 = (weight_threshold a + vt) mod 2 ^ 32" by (simp add: a1_def)
  from Cons.IH [OF d disj thr] show ?case
    unfolding step au t1
    by (auto simp: x vt_def mod_add_left_eq add.assoc)
qed

lemma sum_list_between:
  fixes f :: "'a \<Rightarrow> nat"
  assumes "\<forall>x \<in> set xs. 1 \<le> f x \<and> f x \<le> c"
  shows "length xs \<le> sum_list (map f xs) \<and> sum_list (map f xs) \<le> c * length xs"
  using assms
proof (induction xs)
  case Nil
  then show ?case by simp
next
  case (Cons x xs)
  then have "1 \<le> f x" "f x \<le> c"
    and "length xs \<le> sum_list (map f xs)" "sum_list (map f xs) \<le> c * length xs"
    by simp_all
  then show ?case by simp
qed

lemma legacy_authority_good:
  assumes ne: "members \<noteq> []"
    and len: "length members < 2 ^ 16"
    and tot: "sum_list (map snd members) < 2 ^ 64"
  shows "(\<forall>(k, w) \<in> set (account_auths (legacy_authority members a0)). 1 \<le> w \<and> w \<le> 2 ^ 16 - 1)
    \<and> weight_threshold (legacy_authority members a0)
        = sum_list (map snd (account_auths (legacy_authority members a0))) div 2 + 1
    \<and> weight_threshold (legacy_authority members a0)
        \<le> sum_list (map snd (account_auths (legacy_authority members a0)))"
proof -
  define tv where "tv = fold (\<lambda>(acct, v) t. add_uint64 t v) members 0"
  define ws where "ws = fold (\<lambda>(acct, v) m. map_emplace m acct v) members []"
  define b where "b = nat (max (int (find_msb tv) - 15) 0)"
  define a where "a = a0\<lparr>weight_threshold := 0, account_auths := [], key_auths := [],
     address_auths := []\<rparr>"
  define al where "al = legacy_weights_loop b ws a"
  define vt where "vt = (\<lambda>(k :: nat, w :: nat). max (w div 2 ^ b) 1 mod 2 ^ 16)"
  define S where "S = sum_list (map vt ws)"
  have la: "legacy_authority members a0
      = al\<lparr>weight_threshold := (weight_threshold al div 2 + 1) mod 2 ^ 32\<rparr>"
    by (simp add: legacy_authority_def Let_def tv_def ws_def b_def a_def al_def)
  have tv: "tv = sum_list (map snd members)"
    using fold_add_uint64 [of 0 members] tot by (simp add: tv_def)
  have wf: "sorted_wrt (<) (map fst ws)" "set ws \<subseteq> set members"
    "length ws \<le> length members" "ws \<noteq> []"
    using weights_fold [of "[]" members] ne by (simp_all add: ws_def)
  have dist: "distinct (map fst ws)"
    using wf(1) by (simp add: strict_sorted_iff)
  have vt_range: "1 \<le> vt x \<and> vt x \<le> 65535" if "x \<in> set ws" for x
  proof -
    obtain k w where x: "x = (k, w)" by (cases x)
    with that wf(2) have "w \<in> set (map snd members)" by force
    then have "w \<le> tv" unfolding tv by (simp add: member_le_sum_list)
    then have "w div 2 ^ b < 2 ^ 16" unfolding b_def by (rule shifted_weight_bound)
    then have "max (w div 2 ^ b) 1 < 65536" by simp
    then show ?thesis by (simp add: vt_def x)
  qed
  then have bounds: "length ws \<le> S" "S \<le> 65535 * length ws"
    using sum_list_between [of ws vt 65535] by (simp_all add: S_def)
  have res: "set (account_auths al) = (\<lambda>x. (fst x, vt x)) ` set ws"
    "sum_list (map snd (account_auths al)) = S"
    "weight_threshold al = S mod 2 ^ 32"
    using legacy_weights_loop_result [of ws a b] dist
    by (simp_all add: al_def a_def vt_def S_def case_prod_unfold)
  have "S < 2 ^ 32" using bounds(2) wf(3) len by simp
  moreover have "1 \<le> S" using bounds(1) wf(4) by (cases ws) simp_all
  ultimately have thr: "weight_threshold (legacy_authority members a0) = S div 2 + 1"
    "S div 2 + 1 \<le> S"
    by (simp_all add: la res)
  have auths: "account_auths (legacy_authority members a0) = account_auths al"
    by (simp add: la)
  have "\<forall>(k, w) \<in> set (account_auths al). 1 \<le> w \<and> w \<le> 2 ^ 16 - 1"
    using vt_range by (auto simp: res(1))
  with thr show ?thesis unfolding auths res(2) by simp
qed

lemma sum_list_insert_by:
  fixes f :: "'a \<Rightarrow> nat"
  shows "sum_list (map f (insert_by cmp x xs)) = f x + sum_list (map f xs)"
  by (induction xs) simp_all

lemma sum_list_sort_votable_objects:
  fixes f :: "'a \<Rightarrow> nat"
  shows "sum_list (map f (sort_votable_objects t vid objs k)) \<le> sum_list (map f objs)"
proof -
  have "sum_list (map f (partial_sort cmp c objs)) = sum_list (map f objs)" for cmp c
    by (induction objs) (simp_all add: partial_sort_def sum_list_insert_by)
  moreover have "sum_list (map f (take c xs)) \<le> sum_list (map f xs)" for c xs
    using sum_list_append [of "map f (take c xs)" "map f (drop c xs)"]
    by (simp flip: map_append)
  ultimately show ?thesis
    unfolding sort_votable_objects_def Let_def by metis
qed

lemma update_active_witnesses_legacy:
  assumes "update_active_witnesses ext db = Inr db'"
    and "head_block_time db < HARDFORK_533_TIME ext"
  shows "\<exists>wits. set wits \<subseteq> set (witness_index db) \<and> length wits \<le> length (witness_index db)
      \<and> sum_list (map (\<lambda>w. vote_tally_buffer db ! wit_vote_id w) wits)
          \<le> sum_list (map (\<lambda>w. vote_tally_buffer db ! wit_vote_id w) (witness_index db))
      \<and> active_witnesses (gpo db') = map wit_id wits
      \<and> witness_account_active db'
          = legacy_authority (map (\<lambda>w. (witness_account w, vote_tally_buffer db ! wit_vote_id w)) wits)
              (witness_account_active db)"
proof -
  from assms obtain wc where db': "db' = db\<lparr>witness_index :=
             map (\<lambda>wit. wit\<lparr>wit_total_votes := vote_tally_buffer db ! wit_vote_id wit\<rparr>)
               (witness_index db),
           witness_account_active :=
             legacy_authority (map (\<lambda>wit. (witness_account wit, vote_tally_buffer db ! wit_vote_id wit))
                    (sort_votable_objects (vote_tally_buffer db) wit_vote_id (witness_index db)
                    (max (wc * 2 + 1) (min_witness_count (cpo db))))) (witness_account_active db),
           gpo := (gpo db)\<lparr>active_witnesses := map wit_id
              (sort_votable_objects (vote_tally_buffer db) wit_vote_id (witness_index db)
                    (max (wc * 2 + 1) (min_witness_count (cpo db))))\<rparr>\<rparr>"
    by (auto simp: update_active_witnesses_def bind_r_Inr Let_def)
  let ?wits = "sort_votable_objects (vote_tally_buffer db) wit_vote_id (witness_index db)
                    (max (wc * 2 + 1) (min_witness_count (cpo db)))"
  have "set ?wits \<subseteq> set (witness_index db)"
    by (auto simp: sort_votable_objects_def Let_def set_partial_sort dest: in_set_takeD)
  moreover have "length ?wits \<le> length (witness_index db)"
    by (simp add: length_sort_votable_objects)
  moreover note sum_list_sort_votable_objects [of "\<lambda>w. vote_tally_buffer db ! wit_vote_id w"
      "vote_tally_buffer db" wit_vote_id "witness_index db" "max (wc * 2 + 1) (min_witness_count (cpo db))"]
  ultimately show ?thesis
    by (intro exI [of _ ?wits]) (simp add: db')
qed

lemma update_active_committee_members_legacy:
  assumes "update_active_committee_members ext db = Inr db'"
    and "head_block_time db < HARDFORK_533_TIME ext"
    and "active_committee_members (gpo db') \<noteq> []"
  shows "\<exists>cms. set cms \<subseteq> set (committee_member_index db)
      \<and> length cms \<le> length (committee_member_index db)
      \<and> sum_list (map (\<lambda>c. vote_tally_buffer db ! cm_vote_id c) cms)
          \<le> sum_list (map (\<lambda>c. vote_tally_buffer db ! cm_vote_id c) (committee_member_index db))
      \<and> active_committee_members (gpo db') = map cm_id cms
      \<and> committee_account_active db'
          = legacy_authority (map (\<lambda>c. (committee_member_account c, vote_tally_buffer db ! cm_vote_id c)) cms)
              (committee_account_active db)
      \<and> relaxed_committee_account_active db' = committee_account_active db'"
proof -
  define st where "st = to_int64 (sub_uint64 (total_voting_stake db)
       (witness_count_histogram_buffer db ! 0) div 2)"
  define cnt where "cnt = (if st > 0
               then committee_count_loop (committee_count_histogram_buffer db) st 0 0
               else 0)"
  define cms where "cms = sort_votable_objects (vote_tally_buffer db) cm_vote_id
      (committee_member_index db) (max (cnt * 2 + 1) (min_committee_member_count (cpo db)))"
  from assms(1) have act: "active_committee_members (gpo db') = map cm_id cms"
    by (auto simp: update_active_committee_members_def Let_def st_def cnt_def cms_def
        split: if_splits)
  with assms(3) have ne: "cms \<noteq> []" by auto
  from assms(1,2) ne have auth: "committee_account_active db'
          = legacy_authority (map (\<lambda>c. (committee_member_account c, vote_tally_buffer db ! cm_vote_id c)) cms)
              (committee_account_active db)"
     "relaxed_committee_account_active db' = committee_account_active db'"
    by (auto simp: update_active_committee_members_def Let_def st_def cnt_def cms_def
        split: if_splits)
  have "set cms \<subseteq> set (committee_member_index db)"
    by (auto simp: cms_def sort_votable_objects_def Let_def set_partial_sort dest: in_set_takeD)
  moreover have "length cms \<le> length (committee_member_index db)"
    by (simp add: cms_def length_sort_votable_objects)
  moreover have "sum_list (map (\<lambda>c. vote_tally_buffer db ! cm_vote_id c) cms)
          \<le> sum_list (map (\<lambda>c. vote_tally_buffer db ! cm_vote_id c) (committee_member_index db))"
    unfolding cms_def by (rule sum_list_sort_votable_objects)
  ultimately show ?thesis
    using act auth by (intro exI [of _ cms]) simp
qed

subsection \<open>More facts about the example states\<close>

lemma find_msb_70103: "find_msb 70103 = 16"
  by (simp add: find_msb.simps)

lemma find_msb_90010: "find_msb 90010 = 16"
  by (simp add: find_msb.simps)

lemma db_votes_witnesses:
  "\<exists>dbw. update_active_witnesses ext0 db_votes = Inr dbw
     \<and> active_witnesses (gpo dbw) = [2, 1, 3]
     \<and> account_auths (witness_account_active dbw) = [(11, 50), (12, 35000), (13, 1)]
     \<and> weight_threshold (witness_account_active dbw) = 17526"
  by (simp add: update_active_witnesses_def desired_witness_count_def bind_r_simps Let_def
      db_votes_def db0_def ext0_def head_block_time_def sub_uint64_def to_int64_def
      sort_votable_objects_def partial_sort_def vote_compare_def w1_def w2_def w3_def
      legacy_authority_def add_uint64_def find_msb_70103)

lemma db_votes_committee:
  "\<exists>dbc. update_active_committee_members ext0 db_votes = Inr dbc
     \<and> active_committee_members (gpo dbc) = [3, 1, 2]
     \<and> account_auths (committee_account_active dbc) = [(21, 2), (22, 2), (23, 45000)]
     \<and> weight_threshold (committee_account_active dbc) = 22503"
  by (simp add: update_active_committee_members_def bind_r_simps Let_def
      db_votes_def db0_def ext0_def head_block_time_def sub_uint64_def to_int64_def
      sort_votable_objects_def partial_sort_def vote_compare_def c1_def c2_def c3_def
      legacy_authority_def add_uint64_def find_msb_90010)

subsection \<open>Facts about machine integers\<close>

lemma to_int64_small: "n < 2 ^ 63 \<Longrightarrow> to_int64 n = int n"
  by (simp add: to_int64_def)

lemma sub_uint64_le: "b \<le> a \<Longrightarrow> a < 2 ^ 64 \<Longrightarrow> sub_uint64 a b = a - b"
  by (simp add: sub_uint64_def nat_diff_distrib' of_nat_diff flip: of_nat_diff)

subsection \<open>Facts about the committee count\<close>

lemma committee_count_loop_bucket0:
  "committee_count_loop (hist[0 := v]) t c s = committee_count_loop hist t c s"
proof (induction hist t c s rule: committee_count_loop.induct)
  case (1 hist t c s)
  have l: "committee_count_loop (hist[0 := v]) t c s
     = (if c < length hist - 1 \<and> to_int64 s \<le> t
        then committee_count_loop (hist[0 := v]) t (Suc c) (add_uint64 s (hist ! Suc c))
        else c)"
    by (subst committee_count_loop.simps) simp
  have r: "committee_count_loop hist t c s
     = (if c < length hist - 1 \<and> to_int64 s \<le> t
        then committee_count_loop hist t (Suc c) (add_uint64 s (hist ! Suc c))
        else c)"
    by (rule committee_count_loop.simps)
  show ?case unfolding l r using 1 by auto
qed

lemma db_stake_committee:
  "\<exists>db'. update_active_committee_members ext0 db_stake = Inr db'"
  by (simp add: update_active_committee_members_def db_stake_def db_votes_def db0_def Let_def)

lemma db0_fields:
  "gpo db0 = \<lparr>parameters = \<lparr>block_interval = 5, maximum_witness_count = 3,
                             maximum_committee_count = 3, witness_pay_per_block = 1000,
                             worker_budget_per_day = 1000, count_non_member_votes = True\<rparr>,
              next_available_vote_id = 10, active_committee_members = [], active_witnesses = []\<rparr>"
  "dpo db0 = \<lparr>dgp_time = 1000000, next_maintenance_time = 1043200, last_budget_time = 913600,
              dpo_witness_budget = 0\<rparr>"
  "cpo db0 = \<lparr>min_committee_member_count = 3, min_witness_count = 3\<rparr>"
  "core_dd db0 = \<lparr>current_supply = 1000000000000, accumulated_fees = 0\<rparr>"
  "witness_index db0 = []"
  "committee_member_index db0 = []"
  "worker_index db0 = []"
  "account_index db0 = []"
  "vote_tally_buffer db0 = replicate 10 0"
  "witness_count_histogram_buffer db0 = [0, 0]"
  "committee_count_histogram_buffer db0 = [0, 0]"
  "total_voting_stake db0 = 0"
  "witness_account_active db0 = authority0"
  "committee_account_active db0 = authority0"
  "relaxed_committee_account_active db0 = authority0"
  "fba_accumulators db0 = (\<lambda>i. None)"
  "assets db0 = (\<lambda>i. None)"
  "core_balances db0 = (\<lambda>a. 0)"
  "applied_operations db0 = []"
  "budget_records db0 = []"
  by (simp_all add: db0_def)

lemma ext0_fields:
  "GRAPHENE_100_PERCENT ext0 = 10000"
  "GRAPHENE_1_PERCENT ext0 = 100"
  "GRAPHENE_CORE_ASSET_CYCLE_RATE ext0 = 17"
  "GRAPHENE_CORE_ASSET_CYCLE_RATE_BITS ext0 = 32"
  "GRAPHENE_PROXY_TO_SELF_ACCOUNT ext0 = 5"
  "HARDFORK_533_TIME ext0 = 1456250400"
  "reserved ext0 = (\<lambda>db. 1000000000000000 - current_supply (core_dd db))"
  "is_active ext0 = (\<lambda>w now. True)"
  "approving_stake ext0 = (\<lambda>w. int (total_votes_for w) - int (total_votes_against w))"
  "pay_worker ext0 = (\<lambda>w pay db. Inr db)"
  "is_member ext0 = (\<lambda>a now. True)"
  "is_configured ext0 = (\<lambda>fba db. designated_asset fba \<noteq> None)"
  "vote_counter_finish ext0 = (\<lambda>members a. a)"
  by (simp_all add: ext0_def)

lemma db_tally_fields:
  "gpo db_tally = gpo db0"
  "dpo db_tally = dpo db0"
  "account_index db_tally = [voter]"
  "vote_tally_buffer db_tally = replicate 10 0"
  "witness_count_histogram_buffer db_tally = [0, 0]"
  "committee_count_histogram_buffer db_tally = [0, 0]"
  "total_voting_stake db_tally = 0"
  "core_balances db_tally = (\<lambda>a. if a = 30 then 100 else 0)"
  by (simp_all add: db_tally_def vote_tally_helper_init_def db0_fields resize_def)

subsection \<open>Facts about the FBA fee split\<close>

lemma to_uint128_nonneg: "0 \<le> i \<Longrightarrow> i < 2 ^ 128 \<Longrightarrow> to_uint128 i = nat i"
  by (simp add: to_uint128_def)

lemma fba_share_eq:
  assumes acc: "0 \<le> fees" "fees < 2 ^ 63"
    and pct: "pct \<le> GRAPHENE_100_PERCENT ext"
    and P: "0 < GRAPHENE_100_PERCENT ext" "GRAPHENE_100_PERCENT ext < 2 ^ 32"
  shows "fba_share ext fees pct = fees * int pct div int (GRAPHENE_100_PERCENT ext)"
    and "0 \<le> fba_share ext fees pct" and "fba_share ext fees pct \<le> fees"
proof -
  define P where "P = GRAPHENE_100_PERCENT ext"
  define n where "n = nat fees"
  have n: "fees = int n" "n < 2 ^ 63" using acc by (simp_all add: n_def)
  have u: "to_uint128 fees = n"
    using acc by (simp add: n_def to_uint128_nonneg)
  have "n * pct \<le> n * P" using pct by (simp add: P_def)
  also have "\<dots> < 2 ^ 63 * 2 ^ 32"
    using n(2) P by (intro mult_strict_mono) (simp_all add: P_def)
  finally have small: "n * pct < 2 ^ 128" by simp
  have le: "n * pct div P \<le> n"
  proof -
    have "n * pct div P \<le> n * P div P" using \<open>n * pct \<le> n * P\<close> by (rule div_le_mono)
    then show ?thesis using P by (simp add: P_def)
  qed
  with n(2) have lt: "n * pct div P < 2 ^ 63" by simp
  then have lt64: "n * pct div P < 2 ^ 64" by simp
  have "fba_share ext fees pct = to_int64 (n * pct div P)"
    using small lt64 by (simp add: fba_share_def Let_def u P_def)
  also have "\<dots> = int (n * pct div P)" using lt by (simp add: to_int64_small)
  finally have r: "fba_share ext fees pct = int (n * pct div P)" .
  show "fba_share ext fees pct = fees * int pct div int (GRAPHENE_100_PERCENT ext)"
    using r unfolding n(1) P_def by (simp add: zdiv_int)
  show "0 \<le> fba_share ext fees pct" unfolding r by simp
  show "fba_share ext fees pct \<le> fees" using r le unfolding n(1) by simp
qed

lemma bind_r_InrE:
  assumes "bind_r m f = Inr y"
  obtains x where "m = Inr x" and "f x = Inr y"
  using assms by (auto simp: bind_r_Inr)

lemma adjust_balance_frame:
  assumes "adjust_balance d a x = Inr d'"
  shows "core_dd d' = core_dd d" "applied_operations d' = applied_operations d"
    "fba_accumulators d' = fba_accumulators d" "assets d' = assets d"
  using assms by (auto simp: adjust_balance_def bind_r_Inr)

lemma push_applied_operation_frame:
  "core_dd (push_applied_operation d vop) = core_dd d"
  "applied_operations (push_applied_operation d vop) = applied_operations d @ [vop]"
  "fba_accumulators (push_applied_operation d vop) = fba_accumulators d"
  by (simp_all add: push_applied_operation_def)

lemma two_shares_le:
  fixes a :: int
  assumes "0 \<le> a" "0 < P" "b + i \<le> P"
  shows "a * int b div int P + a * int i div int P \<le> a"
proof -
  have "(a * int b + a * int i) div int P
      = a * int b div int P + a * int i div int P
        + (a * int b mod int P + a * int i mod int P) div int P"
    by (rule div_add1_eq)
  moreover have "0 \<le> (a * int b mod int P + a * int i mod int P) div int P"
    using assms(2) by (simp add: pos_imp_zdiv_nonneg_iff)
  ultimately have "a * int b div int P + a * int i div int P \<le> (a * int b + a * int i) div int P"
    by linarith
  also have "\<dots> = a * int (b + i) div int P" by (simp add: distrib_left)
  also have "\<dots> \<le> a * int P div int P"
    using assms by (intro zdiv_mono1 mult_left_mono) simp_all
  also have "\<dots> = a" using assms(2) by simp
  finally show ?thesis .
qed

lemma db_fba_fields:
  "core_dd db_fba = \<lparr>current_supply = 1000000000000, accumulated_fees = 0\<rparr>"
  "fba_accumulators db_fba = (\<lambda>i. if i = 0 then Some fba0 else None)"
  "assets db_fba = (\<lambda>i. if i = 1 then Some \<lparr>issuer = 40, buyback_account = Some 41\<rparr> else None)"
  "core_balances db_fba = (\<lambda>a. 0)"
  "applied_operations db_fba = []"
  by (simp_all add: db_fba_def db0_fields)

lemma db_fba_split:
  "\<exists>db'. split_fba_balance ext0 db_fba 0 (20 * GRAPHENE_1_PERCENT ext0)
            (60 * GRAPHENE_1_PERCENT ext0) (20 * GRAPHENE_1_PERCENT ext0) = Inr db'
     \<and> core_balances db' 41 = 600 \<and> core_balances db' 40 = 200"
  unfolding split_fba_balance_def Let_def
  by (simp add: db_fba_fields ext0_fields fba0_def fba_share_def to_uint128_def to_int64_def
      safe_add_def safe_sub_def bind_r_simps adjust_balance_def push_applied_operation_def)

subsection \<open>Facts about the budget record\<close>

lemma ceiling_div_pos:
  fixes x d :: int
  assumes "0 < d"
  shows "(x + d - 1) div d = \<lceil>real_of_int x / real_of_int d\<rceil>"
proof -
  define q r where "q = x div d" and "r = x mod d"
  have x: "x = q * d + r" and r: "0 \<le> r" "r < d"
    using assms by (simp_all add: q_def r_def)
  have l: "(x + d - 1) div d = q + (if r = 0 then 0 else 1)"
  proof (cases "r = 0")
    case True
    have "(q * d + (d - 1)) div d = q + (d - 1) div d"
      using assms by (simp add: div_add1_eq [of "q * d" "d - 1" d])
    also have "(d - 1) div d = 0" using assms by (simp add: div_pos_pos_trivial)
    finally show ?thesis using True by (simp add: x algebra_simps)
  next
    case False
    have "x + d - 1 = (q + 1) * d + (r - 1)" by (simp add: x algebra_simps)
    moreover have "((q + 1) * d + (r - 1)) div d = q + 1"
      using r False assms by (simp add: div_pos_pos_trivial)
    ultimately have "(x + d - 1) div d = q + 1" by (simp only:)
    then show ?thesis using False by simp
  qed
  have "\<lceil>real_of_int x / real_of_int d\<rceil> = - (- x div d)"
    by (rule ceiling_divide_eq_div)
  also have "- x div d = - q - (if r = 0 then 0 else 1)"
    using assms by (auto simp: zdiv_zminus1_eq_if q_def r_def)
  finally show ?thesis using l by simp
qed

lemma safe_add_Inr: "safe_add a b = Inr c \<longleftrightarrow> c = a + b \<and> - (2 ^ 63) \<le> a + b \<and> a + b < 2 ^ 63"
  by (auto simp: safe_add_def)

lemma safe_sub_Inr: "safe_sub a b = Inr c \<longleftrightarrow> c = a - b \<and> - (2 ^ 63) \<le> a - b \<and> a - b < 2 ^ 63"
  by (auto simp: safe_sub_def)

lemma to_uint64_nonneg: "0 \<le> i \<Longrightarrow> i < 2 ^ 64 \<Longrightarrow> to_uint64 i = nat i"
  by (simp add: to_uint64_def)

lemma budget_u128_value:
  assumes r: "0 \<le> reserve" "reserve < 2 ^ 63"
    and dt: "0 < dt" "dt < 2 ^ 32"
    and rate: "rate \<le> 2 ^ 32" and bits: "bits < 64"
  shows "((((to_uint128 reserve * to_uint64 dt) mod 2 ^ 128 * rate) mod 2 ^ 128
            + sub_uint64 (2 ^ bits mod 2 ^ 64) 1) mod 2 ^ 128) div 2 ^ bits
         = nat ((reserve * dt * int rate + 2 ^ bits - 1) div 2 ^ bits)"
proof -
  define R where "R = nat reserve"
  define D where "D = nat dt"
  have R: "reserve = int R" "R < 2 ^ 63" using r by (simp_all add: R_def)
  have D: "dt = int D" "D < 2 ^ 32" "0 < D" using dt by (simp_all add: D_def)
  have u: "to_uint128 reserve = R" using r by (simp add: R_def to_uint128_nonneg)
  have v: "to_uint64 dt = D" using dt by (simp add: D_def to_uint64_nonneg)
  have b: "(2::nat) ^ bits < 2 ^ 64" using bits by (intro power_strict_increasing) simp_all
  then have s: "sub_uint64 (2 ^ bits mod 2 ^ 64) 1 = 2 ^ bits - 1"
    by (simp add: sub_uint64_le)
  have "R * D \<le> 2 ^ 63 * 2 ^ 32" using R(2) D(2) by (intro mult_mono) simp_all
  then have rd: "R * D < 2 ^ 128" by simp
  have "R * D * rate \<le> (2 ^ 63 * 2 ^ 32) * 2 ^ 32"
    using mult_mono [OF \<open>R * D \<le> 2 ^ 63 * 2 ^ 32\<close> rate] by simp
  then have rdr: "R * D * rate \<le> 2 ^ 127" by simp
  then have rdr': "R * D * rate < 2 ^ 128" by simp
  have "R * D * rate + (2 ^ bits - 1) < 2 ^ 127 + 2 ^ 64" using rdr b by linarith
  then have sum: "R * D * rate + (2 ^ bits - 1) < 2 ^ 128" by simp
  have "((((to_uint128 reserve * to_uint64 dt) mod 2 ^ 128 * rate) mod 2 ^ 128
            + sub_uint64 (2 ^ bits mod 2 ^ 64) 1) mod 2 ^ 128) div 2 ^ bits
      = (R * D * rate + (2 ^ bits - 1)) div 2 ^ bits"
    unfolding u v s using rd rdr' sum by simp
  also have "\<dots> = nat ((int (R * D * rate + (2 ^ bits - 1))) div 2 ^ bits)"
  proof -
    have "int ((R * D * rate + (2 ^ bits - 1)) div 2 ^ bits)
        = int (R * D * rate + (2 ^ bits - 1)) div 2 ^ bits"
      by (simp only: zdiv_int of_nat_power of_nat_numeral)
    then show ?thesis by (metis nat_int)
  qed
  also have "int (R * D * rate + (2 ^ bits - 1)) = reserve * dt * int rate + 2 ^ bits - 1"
  proof -
    have "int (2 ^ bits - 1) = 2 ^ bits - 1" by (simp add: of_nat_diff)
    moreover have "int (R * D * rate + (2 ^ bits - 1))
        = int R * int D * int rate + int (2 ^ bits - 1)"
      by (simp only: of_nat_add of_nat_mult)
    ultimately show ?thesis unfolding R(1) D(1) by linarith
  qed
  finally show ?thesis .
qed

lemma db0_budget_record:
  "\<exists>rec. initialize_budget_record ext0 db0 1000000 budget_record_init = Inr rec"
  unfolding initialize_budget_record_def Let_def budget_record_init_def
  by (simp add: db0_fields ext0_fields safe_add_def bind_r_simps)

lemma db0_first_budget_record:
  "\<exists>rec. initialize_budget_record ext0 (db0\<lparr>dpo := (dpo db0)\<lparr>last_budget_time := 0\<rparr>\<rparr>) 1000000
            budget_record_init = Inr rec"
  unfolding initialize_budget_record_def Let_def budget_record_init_def
  by (simp add: db0_fields ext0_fields)

subsection \<open>Facts about worker pay\<close>

lemma pay_workers_loop_stop:
  "\<not> 0 < budget \<Longrightarrow> pay_workers_loop ext ws db budget = Inr (db, budget, [])"
  by (cases ws) simp_all

lemma pay_workers_loop_step:
  assumes "0 < budget"
    and "pay_workers_loop ext (w # ws) db budget = Inr (db', budget', paid)"
  obtains db1 paid' where
    "pay_worker ext w (min budget (requested_pay db w)) db = Inr db1"
    "pay_workers_loop ext ws db1 (budget - min budget (requested_pay db w)) = Inr (db', budget', paid')"
    "paid = (w, requested_pay db w, min budget (requested_pay db w)) # paid'"
proof -
  from assms obtain db1 budget1 r where
    a: "pay_worker ext w (min budget (requested_pay db w)) db = Inr db1"
    and b: "safe_sub budget (min budget (requested_pay db w)) = Inr budget1"
    and c: "pay_workers_loop ext ws db1 budget1 = Inr r"
    and d: "(case r of (db2, budget2, paid') \<Rightarrow>
               Inr (db2, budget2, (w, requested_pay db w, min budget (requested_pay db w)) # paid'))
            = Inr (db', budget', paid)"
    by (auto simp: Let_def bind_r_Inr)
  obtain db2 budget2 paid' where r: "r = (db2, budget2, paid')" by (cases r)
  from b have "budget1 = budget - min budget (requested_pay db w)" by (simp add: safe_sub_Inr)
  with a c d r that show ?thesis by simp
qed

lemma pay_workers_loop_budget:
  assumes "0 \<le> budget"
    and "pay_workers_loop ext ws db budget = Inr (db', budget', paid)"
  shows "0 \<le> budget'
    \<and> budget' = budget - sum_list (map (\<lambda>p. snd (snd p)) paid)
    \<and> map fst paid = take (length paid) ws
    \<and> (length paid < length ws \<longrightarrow> budget' = 0)
    \<and> (\<forall>i < length paid.
          0 < budget - sum_list (map (\<lambda>p. snd (snd p)) (take i paid))
          \<and> snd (snd (paid ! i))
              = min (budget - sum_list (map (\<lambda>p. snd (snd p)) (take i paid))) (fst (snd (paid ! i))))
    \<and> (paid \<noteq> [] \<longrightarrow> fst (snd (hd paid)) = requested_pay db (hd ws))"
  using assms
proof (induction ws arbitrary: db budget db' budget' paid)
  case Nil
  then show ?case by simp
next
  case (Cons w ws)
  show ?case
  proof (cases "0 < budget")
    case False
    with Cons.prems have "budget = 0" by simp
    moreover from False Cons.prems(2) have "db' = db" "budget' = budget" "paid = []"
      by (simp_all add: pay_workers_loop_stop)
    ultimately show ?thesis by simp
  next
    case True
    define act where "act = min budget (requested_pay db w)"
    from pay_workers_loop_step [OF True Cons.prems(2)] obtain db1 paid' where
      rest: "pay_workers_loop ext ws db1 (budget - act) = Inr (db', budget', paid')"
      and paid: "paid = (w, requested_pay db w, act) # paid'"
      unfolding act_def by blast
    have b1: "0 \<le> budget - act" by (simp add: act_def)
    note ih = Cons.IH [OF b1 rest]
    have idx: "0 < budget - sum_list (map (\<lambda>p. snd (snd p)) (take i paid))
          \<and> snd (snd (paid ! i))
              = min (budget - sum_list (map (\<lambda>p. snd (snd p)) (take i paid))) (fst (snd (paid ! i)))"
      if "i < length paid" for i
    proof (cases i)
      case 0
      then show ?thesis using True by (simp add: paid act_def)
    next
      case (Suc j)
      with that have "j < length paid'" by (simp add: paid)
      with ih have "0 < budget - act - sum_list (map (\<lambda>p. snd (snd p)) (take j paid'))
          \<and> snd (snd (paid' ! j))
              = min (budget - act - sum_list (map (\<lambda>p. snd (snd p)) (take j paid'))) (fst (snd (paid' ! j)))"
        by blast
      then show ?thesis by (simp add: paid Suc algebra_simps)
    qed
    from ih have "0 \<le> budget'" "budget' = budget - act - sum_list (map (\<lambda>p. snd (snd p)) paid')"
      "map fst paid' = take (length paid') ws" "length paid' < length ws \<longrightarrow> budget' = 0"
      by blast+
    then show ?thesis using idx by (simp add: paid)
  qed
qed

lemma db_workers_fields:
  "dpo db_workers = \<lparr>dgp_time = 1000000, next_maintenance_time = 1043200,
                      last_budget_time = 956800, dpo_witness_budget = 0\<rparr>"
  "worker_index db_workers = [wk1, wk2, wk3]"
  "head_block_time db_workers = 1000000"
  by (simp_all add: db_workers_def db0_fields head_block_time_def)

lemma db_workers_active: "active_workers ext0 db_workers = [wk2, wk3, wk1]"
  by (simp add: active_workers_def std_sort_def worker_compare_def ext0_fields db_workers_fields
      wk1_def wk2_def wk3_def)

lemma db_workers_requested:
  "requested_pay db_workers wk1 = 50" "requested_pay db_workers wk2 = 50"
  "requested_pay db_workers wk3 = 50"
  unfolding requested_pay_def Let_def
  by (simp_all add: db_workers_fields wk1_def wk2_def wk3_def to_uint128_def to_int64_def)

lemma db_workers_paid:
  "pay_workers ext0 db_workers 70 = Inr (db_workers, 0, [(wk2, 50, 50), (wk3, 50, 20)])"
  by (simp add: pay_workers_def db_workers_active db_workers_requested ext0_fields bind_r_simps
      safe_sub_def)

subsection \<open>Facts about the budget pass\<close>

lemma bind_r_weak_cong: "m = m' \<Longrightarrow> bind_r m f = bind_r m' f"
  by simp

lemma budget_balance_Inr:
  assumes "budget_balance a b c d e = Inr x"
  shows "x = a + b - c - d - e"
  using assms unfolding budget_balance_def
  by (auto simp: bind_r_Inr safe_add_Inr safe_sub_Inr)

lemma safe_addD: "safe_add a b = Inr c \<Longrightarrow> c = a + b"
  by (simp add: safe_add_Inr)

lemma safe_subD: "safe_sub a b = Inr c \<Longrightarrow> c = a - b"
  by (simp add: safe_sub_Inr)

lemma process_budget_result:
  assumes ok: "process_budget ext db = Inr db'"
  shows "\<exists>rec0 db1 leftover paid.
     initialize_budget_record ext db (head_block_time db) budget_record_init = Inr rec0
     \<and> 0 < time_to_maint db \<and> 0 < block_interval (parameters (gpo db))
     \<and> (let wit = min (requested_witness_budget_of db) (total_budget rec0);
            wb = worker_budget_of db (total_budget rec0 - wit);
            sd = wit + wb - leftover - from_accumulated_fees rec0 - from_unused_witness_budget rec0
        in pay_workers ext db wb = Inr (db1, leftover, paid)
           \<and> sd = wit + wb - leftover - accumulated_fees (core_dd db1) - dpo_witness_budget (dpo db1)
           \<and> db' = db1\<lparr>core_dd := (core_dd db1)\<lparr>current_supply := current_supply (core_dd db1) + sd,
                                                  accumulated_fees := 0\<rparr>,
                          dpo := (dpo db1)\<lparr>dpo_witness_budget := wit,
                                            last_budget_time := head_block_time db\<rparr>,
                          budget_records := budget_records db1 @
                            [(head_block_time db1,
                              rec0\<lparr>requested_witness_budget := requested_witness_budget_of db,
                                   witness_budget := wit, worker_budget := wb,
                                   leftover_worker_funds := leftover, supply_delta := sd\<rparr>)]\<rparr>)"
proof -
  have t: "0 < time_to_maint db"
    using ok by (rule_tac ccontr) (simp add: process_budget_def Let_def cong: bind_r_weak_cong)
  have bi: "0 < block_interval (parameters (gpo db))"
    using ok t by (rule_tac ccontr) (simp add: process_budget_def Let_def cong: bind_r_weak_cong)
  show ?thesis
    using ok unfolding process_budget_def Let_def
    apply (simp only: t bi not_True_eq_False if_False)
    apply (erule bind_r_InrE)
    apply (erule bind_r_InrE)
    apply (erule bind_r_InrE)
    apply (erule bind_r_InrE)
    apply (simp only: prod.case_eq_if)
    apply (erule bind_r_InrE)
    apply (erule bind_r_InrE)
    apply (erule bind_r_InrE)
    apply (erule bind_r_InrE)
    apply (drule budget_balance_Inr)
    apply (drule budget_balance_Inr)
    apply (drule safe_subD)+
    apply (drule safe_addD)+
    apply hypsubst
    apply (simp split: if_splits)
    apply (rename_tac rec0 r)
    apply (case_tac r)
    apply simp
    done
qed

lemma process_budget_available:
  assumes ok: "process_budget ext db = Inr db'"
    and init: "initialize_budget_record ext db (head_block_time db) budget_record_init = Inr rec0"
  shows "total_budget rec0 - min (requested_witness_budget_of db) (total_budget rec0) < 2 ^ 63"
proof -
  from process_budget_result [OF ok]
  have t: "0 < time_to_maint db" and bi: "0 < block_interval (parameters (gpo db))"
    by blast+
  show ?thesis
    using ok unfolding process_budget_def Let_def
    apply (simp only: t bi not_True_eq_False if_False init bind_r_simps)
    apply (erule bind_r_InrE)
    apply (simp only: safe_sub_Inr)
    done
qed



lemma worker_budget_of_value:
  assumes pay: "0 \<le> worker_budget_per_day (parameters (gpo db))"
      "worker_budget_per_day (parameters (gpo db)) < 2 ^ 63"
    and ttm: "0 < time_to_maint db" "time_to_maint db < 2 ^ 32"
    and av: "0 \<le> available" "available < 2 ^ 63"
  shows "worker_budget_of db available
    = min (worker_budget_per_day (parameters (gpo db)) * time_to_maint db div 86400) available"
proof -
  define W where "W = nat (worker_budget_per_day (parameters (gpo db)))"
  define T where "T = nat (time_to_maint db)"
  define A where "A = nat available"
  have W: "worker_budget_per_day (parameters (gpo db)) = int W" "W < 2 ^ 63"
    using pay by (simp_all add: W_def)
  have T: "time_to_maint db = int T" "T < 2 ^ 32" using ttm by (simp_all add: T_def)
  have A: "available = int A" "A < 2 ^ 63" using av by (simp_all add: A_def)
  have "W * T \<le> 2 ^ 63 * 2 ^ 32" using W(2) T(2) by (intro mult_mono) simp_all
  then have wt: "W * T < 2 ^ 128" by simp
  have cw: "to_uint128 (int W) = W" using W(2) by (simp add: to_uint128_def)
  have ct: "to_uint64 (int T) = T" using T(2) by (simp add: to_uint64_def)
  have u: "worker_budget_u128 db = W * T div 86400"
    using wt by (simp add: worker_budget_u128_def Let_def W(1) T(1) cw ct)
  have a: "to_uint128 (int A) = A" using A(2) by (simp add: to_uint128_def)
  have i: "int W * int T div 86400 = int (W * T div 86400)"
    by (simp add: zdiv_int)
  show ?thesis
  proof (cases "A \<le> W * T div 86400")
    case True
    then show ?thesis unfolding worker_budget_of_def u W(1) T(1) A(1) a i by simp
  next
    case False
    then have lt: "W * T div 86400 < A" by simp
    with A(2) have "W * T div 86400 < 2 ^ 63" by simp
    then have "to_int64 (W * T div 86400 mod 2 ^ 64) = int (W * T div 86400)"
      by (simp add: to_int64_small)
    with lt show ?thesis unfolding worker_budget_of_def u W(1) T(1) A(1) a i by simp
  qed
qed

lemma db_budget_fields:
  "gpo db_budget = gpo db0"
  "dpo db_budget = \<lparr>dgp_time = 1000000, next_maintenance_time = 1043200,
                     last_budget_time = 913600, dpo_witness_budget = 200\<rparr>"
  "core_dd db_budget = \<lparr>current_supply = 1000000000000, accumulated_fees = 300\<rparr>"
  "worker_index db_budget = []"
  "budget_records db_budget = []"
  "head_block_time db_budget = 1000000"
  by (simp_all add: db_budget_def db0_fields head_block_time_def)

lemma db_budget_record:
  "initialize_budget_record ext0 db_budget 1000000 budget_record_init
     = Inr (budget_record_init\<lparr>from_initial_reserve := 999000000000000,
                               from_accumulated_fees := 300,
                               from_unused_witness_budget := 200,
                               time_since_last_budget := 86400,
                               total_budget := 341639667750\<rparr>)"
  unfolding initialize_budget_record_def Let_def budget_u128_def
  by (simp add: db_budget_fields ext0_fields safe_add_def bind_r_simps to_uint128_def
      to_uint64_def sub_uint64_def to_int64_def)

lemma db_budget_values:
  "time_to_maint db_budget = 43200"
  "requested_witness_budget_of db_budget = 8640000"
  "worker_budget_u128 db_budget = 500"
  "worker_budget_of db_budget 341631027750 = 500"
  unfolding time_to_maint_def requested_witness_budget_of_def blocks_to_maint_def
    worker_budget_u128_def worker_budget_of_def Let_def
  by (simp_all add: db_budget_fields db0_fields to_uint128_def to_uint64_def sub_uint64_def
      add_uint64_def to_int64_def)

lemma db_budget_pay: "pay_workers ext0 db_budget budget = Inr (db_budget, budget, [])"
  by (simp add: pay_workers_def active_workers_def std_sort_def db_budget_fields)

lemma db_budget_process:
  "process_budget ext0 db_budget
     = Inr (db_budget
          \<lparr>core_dd := \<lparr>current_supply = 1000008639500, accumulated_fees = 0\<rparr>,
           dpo := \<lparr>dgp_time = 1000000, next_maintenance_time = 1043200,
                   last_budget_time = 1000000, dpo_witness_budget = 8640000\<rparr>,
           budget_records :=
             [(1000000,
               budget_record_init\<lparr>from_initial_reserve := 999000000000000,
                                  from_accumulated_fees := 300,
                                  from_unused_witness_budget := 200,
                                  time_since_last_budget := 86400,
                                  total_budget := 341639667750,
                                  requested_witness_budget := 8640000,
                                  witness_budget := 8640000,
                                  worker_budget := 500,
                                  leftover_worker_funds := 500,
                                  supply_delta := 8639500\<rparr>)]\<rparr>)"
  unfolding process_budget_def Let_def
  apply (simp only: db_budget_fields db_budget_values db_budget_record bind_r_simps)
  apply (simp add: db_budget_fields db_budget_values db_budget_pay db0_fields bind_r_simps
      safe_add_def safe_sub_def budget_balance_def)
  done

subsection \<open>Facts about the states of worker pay\<close>

lemma pay_workers_loop_states:
  assumes "pay_workers_loop ext ws db budget = Inr (db', budget', paid)"
  shows "\<exists>dbs. length dbs = Suc (length paid) \<and> dbs ! 0 = db \<and> dbs ! length paid = db'
    \<and> (\<forall>i < length paid.
          fst (snd (paid ! i)) = requested_pay (dbs ! i) (fst (paid ! i))
          \<and> pay_worker ext (fst (paid ! i)) (snd (snd (paid ! i))) (dbs ! i) = Inr (dbs ! Suc i))"
  using assms
proof (induction ws arbitrary: db budget paid)
  case Nil
  then have "paid = []" "db' = db" by simp_all
  then show ?case by (intro exI [of _ "[db]"]) simp
next
  case (Cons w ws)
  show ?case
  proof (cases "0 < budget")
    case False
    with Cons.prems have "paid = []" "db' = db" by (simp_all add: pay_workers_loop_stop)
    then show ?thesis by (intro exI [of _ "[db]"]) simp
  next
    case True
    define act where "act = min budget (requested_pay db w)"
    from pay_workers_loop_step [OF True Cons.prems] obtain db1 paid' where
      a: "pay_worker ext w act db = Inr db1"
      and rest: "pay_workers_loop ext ws db1 (budget - act) = Inr (db', budget', paid')"
      and paid: "paid = (w, requested_pay db w, act) # paid'"
      unfolding act_def by blast
    from Cons.IH [OF rest] obtain dbs where
      len: "length dbs = Suc (length paid')" and first: "dbs ! 0 = db1"
      and final: "dbs ! length paid' = db'"
      and calls: "\<forall>i < length paid'.
          fst (snd (paid' ! i)) = requested_pay (dbs ! i) (fst (paid' ! i))
          \<and> pay_worker ext (fst (paid' ! i)) (snd (snd (paid' ! i))) (dbs ! i) = Inr (dbs ! Suc i)"
      by blast
    have "fst (snd (paid ! i)) = requested_pay ((db # dbs) ! i) (fst (paid ! i))
          \<and> pay_worker ext (fst (paid ! i)) (snd (snd (paid ! i))) ((db # dbs) ! i)
              = Inr ((db # dbs) ! Suc i)"
      if "i < length paid" for i
    proof (cases i)
      case 0
      then show ?thesis using a first by (simp add: paid)
    next
      case (Suc j)
      with that have "j < length paid'" by (simp add: paid)
      with calls show ?thesis by (simp add: paid Suc)
    qed
    with len final show ?thesis by (intro exI [of _ "db # dbs"]) (simp add: paid)
  qed
qed

lemma ext_refund_fields:
  "GRAPHENE_CORE_ASSET_CYCLE_RATE ext_refund = 17"
  "GRAPHENE_CORE_ASSET_CYCLE_RATE_BITS ext_refund = 32"
  "reserved ext_refund = (\<lambda>db. 1000000000000000 - current_supply (core_dd db))"
  "is_active ext_refund = (\<lambda>w now. True)"
  "approving_stake ext_refund = (\<lambda>w. int (total_votes_for w) - int (total_votes_against w))"
  "pay_worker ext_refund
     = (\<lambda>w pay db. Inr (db\<lparr>core_dd := (core_dd db)\<lparr>current_supply :=
                                                  current_supply (core_dd db) - pay\<rparr>\<rparr>))"
  by (simp_all add: ext_refund_def ext0_def)

lemma requested_pay_core_dd: "requested_pay (db\<lparr>core_dd := c\<rparr>) w = requested_pay db w"
  by (simp add: requested_pay_def head_block_time_def)

lemma db_workers_refund_active: "active_workers ext_refund db_workers = [wk2, wk3, wk1]"
  by (simp add: active_workers_def std_sort_def worker_compare_def ext_refund_fields
      db_workers_fields wk1_def wk2_def wk3_def)

lemma db_workers_core_dd:
  "core_dd db_workers = \<lparr>current_supply = 1000000000000, accumulated_fees = 0\<rparr>"
  by (simp add: db_workers_def db0_fields)

lemma db_workers_refund_paid:
  "pay_workers ext_refund db_workers 70
     = Inr (db_workers\<lparr>core_dd := \<lparr>current_supply = 999999999930, accumulated_fees = 0\<rparr>\<rparr>,
            0, [(wk2, 50, 50), (wk3, 50, 20)])"
  by (simp add: pay_workers_def db_workers_refund_active db_workers_requested ext_refund_fields
      bind_r_simps safe_sub_def requested_pay_core_dd db_workers_core_dd)








section \<open>The claims\<close>

subsection \<open>C2: ties in \<open>sort_votable_objects\<close>\<close>

text \<open>
  C2, as amended.  The list \<open>sort_votable_objects\<close> returns is ordered by tallied votes,
  highest first, and among equal tallies by \<open>vote_id\<close>, lowest first (the comparison
  reads \<open>vote_id\<close>, not the object's \<open>id\<close>).  No candidate left out has more tallied
  votes than a retained one, or the same tallied votes and a lower \<open>vote_id\<close>.  The
  tallied votes are the entry of \<open>_vote_tally_buffer\<close> read as a \<open>share_type\<close>.
\<close>

theorem sort_votable_objects_tie_break:
  "let res = sort_votable_objects t vid objs k;
       tallied = (\<lambda>ob. to_int64 (t ! vid ob))
   in (\<forall>i j. i < j \<longrightarrow> j < length res \<longrightarrow>
         tallied (res ! j) \<le> tallied (res ! i)
         \<and> (tallied (res ! j) = tallied (res ! i) \<longrightarrow> vid (res ! i) \<le> vid (res ! j)))
      \<and> (\<forall>x \<in> set objs. \<forall>y \<in> set res. x \<notin> set res \<longrightarrow>
            tallied x \<le> tallied y
            \<and> (tallied x = tallied y \<longrightarrow> vid y \<le> vid x))"
proof -
  let ?res = "sort_votable_objects t vid objs k"
  let ?c = "min k (length objs)"
  let ?s = "partial_sort (vote_compare t vid) ?c objs"
  have res: "?res = take ?c ?s"
    by (simp add: sort_votable_objects_def Let_def)
  have srt: "sorted_wrt (\<lambda>a b. \<not> vote_compare t vid b a) ?s"
    by (rule sorted_partial_sort_vote)
  have inner: "\<not> vote_compare t vid (?res ! j) (?res ! i)" if "i < j" "j < length ?res" for i j
  proof -
    from that res have "j < ?c" "j < length ?s" by simp_all
    with that srt have "\<not> vote_compare t vid (?s ! j) (?s ! i)"
      by (simp add: sorted_wrt_iff_nth_less)
    with that \<open>j < ?c\<close> res show ?thesis by simp
  qed
  have outer: "\<not> vote_compare t vid x y" if "x \<in> set objs" "y \<in> set ?res" "x \<notin> set ?res" for x y
    using retained_before_omitted [OF that(2) that(1) that(3)] .
  show ?thesis
    unfolding Let_def
  proof (intro conjI allI impI ballI)
    fix i j assume "i < j" "j < length ?res"
    then have "\<not> vote_compare t vid (?res ! j) (?res ! i)" by (rule inner)
    then show "to_int64 (t ! vid (?res ! j)) \<le> to_int64 (t ! vid (?res ! i))"
      by (auto simp: vote_compare_iff)
  next
    fix i j assume "i < j" "j < length ?res"
      and "to_int64 (t ! vid (?res ! j)) = to_int64 (t ! vid (?res ! i))"
    moreover from this have "\<not> vote_compare t vid (?res ! j) (?res ! i)" by (simp add: inner)
    ultimately show "vid (?res ! i) \<le> vid (?res ! j)"
      by (auto simp: vote_compare_iff)
  next
    fix x y assume "x \<in> set objs" "y \<in> set ?res" "x \<notin> set ?res"
    then have "\<not> vote_compare t vid x y" by (rule outer)
    then show "to_int64 (t ! vid x) \<le> to_int64 (t ! vid y)"
      by (auto simp: vote_compare_iff)
  next
    fix x y assume "x \<in> set objs" "y \<in> set ?res" "x \<notin> set ?res"
      and "to_int64 (t ! vid x) = to_int64 (t ! vid y)"
    moreover from this have "\<not> vote_compare t vid x y" by (simp add: outer)
    ultimately show "vid y \<le> vid x"
      by (auto simp: vote_compare_iff)
  qed
qed

theorem sort_votable_objects_tie_break_witness:
  "wit_vote_id \<lparr>wit_id = 9, witness_account = 90, wit_vote_id = 3, wit_total_votes = 0\<rparr>
     \<le> wit_vote_id \<lparr>wit_id = 7, witness_account = 70, wit_vote_id = 9, wit_total_votes = 0\<rparr>
   \<and> sort_votable_objects (replicate 10 100) wit_vote_id
       [\<lparr>wit_id = 7, witness_account = 70, wit_vote_id = 9, wit_total_votes = 0\<rparr>,
        \<lparr>wit_id = 9, witness_account = 90, wit_vote_id = 3, wit_total_votes = 0\<rparr>] 1
     = [\<lparr>wit_id = 9, witness_account = 90, wit_vote_id = 3, wit_total_votes = 0\<rparr>]"
  using sort_votable_objects_tie_break [of "replicate 10 100" wit_vote_id
      "[\<lparr>wit_id = 7, witness_account = 70, wit_vote_id = 9, wit_total_votes = 0\<rparr>,
        \<lparr>wit_id = 9, witness_account = 90, wit_vote_id = 3, wit_total_votes = 0\<rparr>]" 1]
  by (simp add: sort_votable_objects_def partial_sort_def vote_compare_def to_int64_def)

text \<open>
  As the claim states it, with the object's \<open>id\<close> as the tie-break, it fails: of two
  witnesses with equal tallies, ids 7 and 9 and vote ids 9 and 3, the one with id 9 is
  retained and the one with id 7 is left out.
\<close>

theorem tie_break_by_id_counterexample:
  "\<not> (\<forall>t (objs :: witness_object list) k.
        \<forall>x \<in> set objs. \<forall>y \<in> set (sort_votable_objects t wit_vote_id objs k).
          x \<notin> set (sort_votable_objects t wit_vote_id objs k) \<longrightarrow>
          \<not> (t ! wit_vote_id y = t ! wit_vote_id x \<and> wit_id y > wit_id x))"
proof
  let ?w7 = "\<lparr>wit_id = 7, witness_account = 70, wit_vote_id = 9, wit_total_votes = 0\<rparr>"
  let ?w9 = "\<lparr>wit_id = 9, witness_account = 90, wit_vote_id = 3, wit_total_votes = 0\<rparr>"
  let ?t = "replicate 10 (100 :: nat)"
  assume "\<forall>t (objs :: witness_object list) k.
        \<forall>x \<in> set objs. \<forall>y \<in> set (sort_votable_objects t wit_vote_id objs k).
          x \<notin> set (sort_votable_objects t wit_vote_id objs k) \<longrightarrow>
          \<not> (t ! wit_vote_id y = t ! wit_vote_id x \<and> wit_id y > wit_id x)"
  then have "\<forall>x \<in> set [?w7, ?w9]. \<forall>y \<in> set (sort_votable_objects ?t wit_vote_id [?w7, ?w9] 1).
          x \<notin> set (sort_votable_objects ?t wit_vote_id [?w7, ?w9] 1) \<longrightarrow>
          \<not> (?t ! wit_vote_id y = ?t ! wit_vote_id x \<and> wit_id y > wit_id x)"
    by blast
  then show False
    by (simp add: sort_votable_objects_def partial_sort_def vote_compare_def to_int64_def)
qed

subsection \<open>C3: the size of the active witness list\<close>

text \<open>
  C3, as amended.  When \<open>update_active_witnesses\<close> returns, the active witness list has
  \<open>min (max (2 * witness_count + 1) min_witness_count) n\<close> entries, where \<open>n\<close> is the
  number of witness objects in the index (\<open>sort_votable_objects\<close> never returns more
  than the index holds).  When the index holds at least
  \<open>max (2 * witness_count + 1) min_witness_count\<close> witnesses the list has exactly that
  size, which is at least \<open>min_witness_count\<close>, and odd when \<open>min_witness_count\<close> is odd.
\<close>

theorem update_active_witnesses_size:
  assumes "update_active_witnesses ext db = Inr db'"
  shows "\<exists>witness_count. desired_witness_count db = Inr witness_count \<and>
     (let target = max (witness_count * 2 + 1) (min_witness_count (cpo db));
          n = length (active_witnesses (gpo db'))
      in n = min target (length (witness_index db))
         \<and> (target \<le> length (witness_index db) \<longrightarrow>
              n = target \<and> min_witness_count (cpo db) \<le> n
              \<and> (odd (min_witness_count (cpo db)) \<longrightarrow> odd n)))"
proof -
  from assms obtain wc where wc: "desired_witness_count db = Inr wc"
    and db': "db' = db\<lparr>witness_index :=
             map (\<lambda>wit. wit\<lparr>wit_total_votes := vote_tally_buffer db ! wit_vote_id wit\<rparr>)
               (witness_index db),
           witness_account_active :=
             (let members = map (\<lambda>wit. (witness_account wit, vote_tally_buffer db ! wit_vote_id wit))
                    (sort_votable_objects (vote_tally_buffer db) wit_vote_id (witness_index db)
                    (max (wc * 2 + 1) (min_witness_count (cpo db))))
              in if head_block_time db < HARDFORK_533_TIME ext
                then legacy_authority members (witness_account_active db)
                else vote_counter_finish ext members (witness_account_active db)),
           gpo := (gpo db)\<lparr>active_witnesses := map wit_id
              (sort_votable_objects (vote_tally_buffer db) wit_vote_id (witness_index db)
                    (max (wc * 2 + 1) (min_witness_count (cpo db))))\<rparr>\<rparr>"
    by (auto simp: update_active_witnesses_def bind_r_Inr Let_def)
  have len: "length (active_witnesses (gpo db'))
      = min (max (wc * 2 + 1) (min_witness_count (cpo db))) (length (witness_index db))"
    by (simp add: db' length_sort_votable_objects)
  show ?thesis
  proof (intro exI conjI)
    show "desired_witness_count db = Inr wc" by (rule wc)
    show "let target = max (wc * 2 + 1) (min_witness_count (cpo db));
          n = length (active_witnesses (gpo db'))
      in n = min target (length (witness_index db))
         \<and> (target \<le> length (witness_index db) \<longrightarrow>
              n = target \<and> min_witness_count (cpo db) \<le> n
              \<and> (odd (min_witness_count (cpo db)) \<longrightarrow> odd n))"
      unfolding Let_def len by (auto simp: max_def)
  qed
qed

theorem update_active_witnesses_size_witness:
  "\<exists>db'. update_active_witnesses ext0 (db0\<lparr>witness_index := [w1, w2, w3]\<rparr>) = Inr db'
     \<and> length (active_witnesses (gpo db')) = 3"
proof -
  obtain db' where h: "update_active_witnesses ext0 (db0\<lparr>witness_index := [w1, w2, w3]\<rparr>) = Inr db'"
    by (simp add: update_active_witnesses_def desired_witness_count_db0 bind_r_simps Let_def)
  from update_active_witnesses_size [OF h] have "length (active_witnesses (gpo db')) = 3"
    by (simp add: desired_witness_count_db0 Let_def) (simp add: db0_def)
  with h show ?thesis by blast
qed

text \<open>
  As the claim states it, for any state of the witness index, it fails: with two
  witnesses in the index, \<open>witness_count = 0\<close> and \<open>min_witness_count = 3\<close> the list has
  two entries, an even number below the floor.
\<close>

theorem two_witnesses_counterexample:
  "\<exists>db'. update_active_witnesses ext0 (db0\<lparr>witness_index := [w1, w2]\<rparr>) = Inr db'
     \<and> desired_witness_count (db0\<lparr>witness_index := [w1, w2]\<rparr>) = Inr 0
     \<and> min_witness_count (cpo (db0\<lparr>witness_index := [w1, w2]\<rparr>)) = 3
     \<and> length (active_witnesses (gpo db')) = 2"
  by (simp add: update_active_witnesses_def desired_witness_count_db0 bind_r_simps Let_def length_sort_votable_objects)
    (simp add: db0_def)

subsection \<open>C7: the legacy authority\<close>

text \<open>
  C7.  Before \<open>HARDFORK_533_TIME\<close>, when \<open>update_active_witnesses\<close> (resp.
  \<open>update_active_committee_members\<close>) returns with a non-empty list of elected members,
  every weight of the authority it wrote to the witness account (resp. the committee
  account) is between 1 and \<open>2^16 - 1\<close>, the threshold is half the sum of the weights,
  rounded down, plus one, and the sum of the weights reaches the threshold.  The machine
  integers are assumed not to wrap: the index holds fewer than \<open>2^16\<close> objects and the
  tallies of its objects sum to less than \<open>2^64\<close>.
\<close>

theorem legacy_authority_weights:
  "(update_active_witnesses ext db = Inr dbw
      \<and> head_block_time db < HARDFORK_533_TIME ext
      \<and> active_witnesses (gpo dbw) \<noteq> []
      \<and> length (witness_index db) < 2 ^ 16
      \<and> sum_list (map (\<lambda>w. vote_tally_buffer db ! wit_vote_id w) (witness_index db)) < 2 ^ 64
    \<longrightarrow> (\<forall>(k, w) \<in> set (account_auths (witness_account_active dbw)). 1 \<le> w \<and> w \<le> 2 ^ 16 - 1)
        \<and> weight_threshold (witness_account_active dbw)
            = sum_list (map snd (account_auths (witness_account_active dbw))) div 2 + 1
        \<and> weight_threshold (witness_account_active dbw)
            \<le> sum_list (map snd (account_auths (witness_account_active dbw))))
   \<and> (update_active_committee_members ext db = Inr dbc
      \<and> head_block_time db < HARDFORK_533_TIME ext
      \<and> active_committee_members (gpo dbc) \<noteq> []
      \<and> length (committee_member_index db) < 2 ^ 16
      \<and> sum_list (map (\<lambda>c. vote_tally_buffer db ! cm_vote_id c) (committee_member_index db)) < 2 ^ 64
    \<longrightarrow> (\<forall>(k, w) \<in> set (account_auths (committee_account_active dbc)). 1 \<le> w \<and> w \<le> 2 ^ 16 - 1)
        \<and> weight_threshold (committee_account_active dbc)
            = sum_list (map snd (account_auths (committee_account_active dbc))) div 2 + 1
        \<and> weight_threshold (committee_account_active dbc)
            \<le> sum_list (map snd (account_auths (committee_account_active dbc))))"
proof (intro conjI impI)
  assume h: "update_active_witnesses ext db = Inr dbw
      \<and> head_block_time db < HARDFORK_533_TIME ext
      \<and> active_witnesses (gpo dbw) \<noteq> []
      \<and> length (witness_index db) < 2 ^ 16
      \<and> sum_list (map (\<lambda>w. vote_tally_buffer db ! wit_vote_id w) (witness_index db)) < 2 ^ 64"
  then have h1: "update_active_witnesses ext db = Inr dbw"
    and h2: "head_block_time db < HARDFORK_533_TIME ext" by blast+
  from update_active_witnesses_legacy [OF h1 h2]
  obtain wits where w0: "set wits \<subseteq> set (witness_index db) \<and> length wits \<le> length (witness_index db)
      \<and> sum_list (map (\<lambda>w. vote_tally_buffer db ! wit_vote_id w) wits)
          \<le> sum_list (map (\<lambda>w. vote_tally_buffer db ! wit_vote_id w) (witness_index db))
      \<and> active_witnesses (gpo dbw) = map wit_id wits
      \<and> witness_account_active dbw
          = legacy_authority (map (\<lambda>w. (witness_account w, vote_tally_buffer db ! wit_vote_id w)) wits)
              (witness_account_active db)" ..
  then have w: "length wits \<le> length (witness_index db)"
      "sum_list (map (\<lambda>w. vote_tally_buffer db ! wit_vote_id w) wits)
          \<le> sum_list (map (\<lambda>w. vote_tally_buffer db ! wit_vote_id w) (witness_index db))"
      "active_witnesses (gpo dbw) = map wit_id wits"
      "witness_account_active dbw
          = legacy_authority (map (\<lambda>w. (witness_account w, vote_tally_buffer db ! wit_vote_id w)) wits)
              (witness_account_active db)"
    by blast+
  let ?m = "map (\<lambda>w. (witness_account w, vote_tally_buffer db ! wit_vote_id w)) wits"
  have "?m \<noteq> []" using h w(3) by auto
  moreover have "length ?m < 2 ^ 16" using h w(1) by simp
  moreover have "sum_list (map snd ?m) < 2 ^ 64" using h w(2) by (simp add: comp_def)
  ultimately have g: "(\<forall>(k, w) \<in> set (account_auths (legacy_authority ?m (witness_account_active db))).
         1 \<le> w \<and> w \<le> 2 ^ 16 - 1)
    \<and> weight_threshold (legacy_authority ?m (witness_account_active db))
        = sum_list (map snd (account_auths (legacy_authority ?m (witness_account_active db)))) div 2 + 1
    \<and> weight_threshold (legacy_authority ?m (witness_account_active db))
        \<le> sum_list (map snd (account_auths (legacy_authority ?m (witness_account_active db))))"
    by (rule legacy_authority_good)
  from g show "\<forall>(k, w) \<in> set (account_auths (witness_account_active dbw)). 1 \<le> w \<and> w \<le> 2 ^ 16 - 1"
    unfolding w(4) by blast
  from g show "weight_threshold (witness_account_active dbw)
            = sum_list (map snd (account_auths (witness_account_active dbw))) div 2 + 1"
    unfolding w(4) by blast
  from g show "weight_threshold (witness_account_active dbw)
            \<le> sum_list (map snd (account_auths (witness_account_active dbw)))"
    unfolding w(4) by blast
next
  assume h: "update_active_committee_members ext db = Inr dbc
      \<and> head_block_time db < HARDFORK_533_TIME ext
      \<and> active_committee_members (gpo dbc) \<noteq> []
      \<and> length (committee_member_index db) < 2 ^ 16
      \<and> sum_list (map (\<lambda>c. vote_tally_buffer db ! cm_vote_id c) (committee_member_index db)) < 2 ^ 64"
  then have h1: "update_active_committee_members ext db = Inr dbc"
    and h2: "head_block_time db < HARDFORK_533_TIME ext"
    and h3: "active_committee_members (gpo dbc) \<noteq> []" by blast+
  from update_active_committee_members_legacy [OF h1 h2 h3]
  obtain cms where w0: "set cms \<subseteq> set (committee_member_index db)
      \<and> length cms \<le> length (committee_member_index db)
      \<and> sum_list (map (\<lambda>c. vote_tally_buffer db ! cm_vote_id c) cms)
          \<le> sum_list (map (\<lambda>c. vote_tally_buffer db ! cm_vote_id c) (committee_member_index db))
      \<and> active_committee_members (gpo dbc) = map cm_id cms
      \<and> committee_account_active dbc
          = legacy_authority (map (\<lambda>c. (committee_member_account c, vote_tally_buffer db ! cm_vote_id c)) cms)
              (committee_account_active db)
      \<and> relaxed_committee_account_active dbc = committee_account_active dbc" ..
  then have w: "length cms \<le> length (committee_member_index db)"
      "sum_list (map (\<lambda>c. vote_tally_buffer db ! cm_vote_id c) cms)
          \<le> sum_list (map (\<lambda>c. vote_tally_buffer db ! cm_vote_id c) (committee_member_index db))"
      "active_committee_members (gpo dbc) = map cm_id cms"
      "committee_account_active dbc
          = legacy_authority (map (\<lambda>c. (committee_member_account c, vote_tally_buffer db ! cm_vote_id c)) cms)
              (committee_account_active db)"
    by blast+
  let ?m = "map (\<lambda>c. (committee_member_account c, vote_tally_buffer db ! cm_vote_id c)) cms"
  have "?m \<noteq> []" using h w(3) by auto
  moreover have "length ?m < 2 ^ 16" using h w(1) by simp
  moreover have "sum_list (map snd ?m) < 2 ^ 64" using h w(2) by (simp add: comp_def)
  ultimately have g: "(\<forall>(k, w) \<in> set (account_auths (legacy_authority ?m (committee_account_active db))).
         1 \<le> w \<and> w \<le> 2 ^ 16 - 1)
    \<and> weight_threshold (legacy_authority ?m (committee_account_active db))
        = sum_list (map snd (account_auths (legacy_authority ?m (committee_account_active db)))) div 2 + 1
    \<and> weight_threshold (legacy_authority ?m (committee_account_active db))
        \<le> sum_list (map snd (account_auths (legacy_authority ?m (committee_account_active db))))"
    by (rule legacy_authority_good)
  from g show "\<forall>(k, w) \<in> set (account_auths (committee_account_active dbc)). 1 \<le> w \<and> w \<le> 2 ^ 16 - 1"
    unfolding w(4) by blast
  from g show "weight_threshold (committee_account_active dbc)
            = sum_list (map snd (account_auths (committee_account_active dbc))) div 2 + 1"
    unfolding w(4) by blast
  from g show "weight_threshold (committee_account_active dbc)
            \<le> sum_list (map snd (account_auths (committee_account_active dbc)))"
    unfolding w(4) by blast
qed

theorem legacy_authority_weights_witness:
  "\<exists>dbw dbc. update_active_witnesses ext0 db_votes = Inr dbw
     \<and> update_active_committee_members ext0 db_votes = Inr dbc
     \<and> account_auths (witness_account_active dbw) = [(11, 50), (12, 35000), (13, 1)]
     \<and> weight_threshold (witness_account_active dbw) = 17526
     \<and> weight_threshold (witness_account_active dbw)
         \<le> sum_list (map snd (account_auths (witness_account_active dbw)))
     \<and> account_auths (committee_account_active dbc) = [(21, 2), (22, 2), (23, 45000)]
     \<and> weight_threshold (committee_account_active dbc) = 22503
     \<and> weight_threshold (committee_account_active dbc)
         \<le> sum_list (map snd (account_auths (committee_account_active dbc)))"
proof -
  from db_votes_witnesses obtain dbw where w: "update_active_witnesses ext0 db_votes = Inr dbw"
    "active_witnesses (gpo dbw) = [2, 1, 3]"
    "account_auths (witness_account_active dbw) = [(11, 50), (12, 35000), (13, 1)]"
    "weight_threshold (witness_account_active dbw) = 17526"
    by blast
  from db_votes_committee obtain dbc where c: "update_active_committee_members ext0 db_votes = Inr dbc"
    "active_committee_members (gpo dbc) = [3, 1, 2]"
    "account_auths (committee_account_active dbc) = [(21, 2), (22, 2), (23, 45000)]"
    "weight_threshold (committee_account_active dbc) = 22503"
    by blast
  have pre: "head_block_time db_votes < HARDFORK_533_TIME ext0"
    "length (witness_index db_votes) < 2 ^ 16"
    "sum_list (map (\<lambda>w. vote_tally_buffer db_votes ! wit_vote_id w) (witness_index db_votes)) < 2 ^ 64"
    "length (committee_member_index db_votes) < 2 ^ 16"
    "sum_list (map (\<lambda>c. vote_tally_buffer db_votes ! cm_vote_id c) (committee_member_index db_votes))
       < 2 ^ 64"
    by (simp_all add: db_votes_def db0_def ext0_def head_block_time_def w1_def w2_def w3_def
        c1_def c2_def c3_def)
  have "active_witnesses (gpo dbw) \<noteq> []" "active_committee_members (gpo dbc) \<noteq> []"
    by (simp_all add: w c)
  with legacy_authority_weights [of ext0 db_votes dbw dbc] w(1) c(1) pre
  have "weight_threshold (witness_account_active dbw)
         \<le> sum_list (map snd (account_auths (witness_account_active dbw)))"
    "weight_threshold (committee_account_active dbc)
         \<le> sum_list (map snd (account_auths (committee_account_active dbc)))"
    by blast+
  with w c show ?thesis by blast
qed

subsection \<open>C9: the stake target of the committee election\<close>

text \<open>
  C9.  \<open>update_active_committee_members\<close> does not read bucket 0 of the committee count
  histogram: putting any value there changes nothing in what it returns.  Its stake target
  is \<open>(total_voting_stake - witness_count_histogram[0]) / 2\<close>, with bucket 0 of the
  \<open>witness\<close> count histogram: where that bucket does not exceed the total voting stake,
  the elected committee is the one \<open>sort_votable_objects\<close> returns for the count the
  loop derives from this target.
\<close>

theorem committee_stake_target_from_witness_histogram:
  "update_active_committee_members ext
       (db\<lparr>committee_count_histogram_buffer := (committee_count_histogram_buffer db)[0 := v]\<rparr>)
     = map_sum id
         (\<lambda>d. d\<lparr>committee_count_histogram_buffer := (committee_count_histogram_buffer db)[0 := v]\<rparr>)
         (update_active_committee_members ext db)
   \<and> (witness_count_histogram_buffer db ! 0 \<le> total_voting_stake db
        \<and> total_voting_stake db < 2 ^ 64
        \<and> update_active_committee_members ext db = Inr db'
      \<longrightarrow> active_committee_members (gpo db')
          = map cm_id
              (sort_votable_objects (vote_tally_buffer db) cm_vote_id (committee_member_index db)
                (max ((let stake_target =
                             int ((total_voting_stake db - witness_count_histogram_buffer db ! 0) div 2)
                       in if stake_target > 0
                          then committee_count_loop (committee_count_histogram_buffer db) stake_target 0 0
                          else 0) * 2 + 1)
                     (min_committee_member_count (cpo db)))))"
proof (intro conjI impI)
  show "update_active_committee_members ext
       (db\<lparr>committee_count_histogram_buffer := (committee_count_histogram_buffer db)[0 := v]\<rparr>)
     = map_sum id
         (\<lambda>d. d\<lparr>committee_count_histogram_buffer := (committee_count_histogram_buffer db)[0 := v]\<rparr>)
         (update_active_committee_members ext db)"
    by (simp add: update_active_committee_members_def Let_def committee_count_loop_bucket0
        head_block_time_def)
next
  assume h: "witness_count_histogram_buffer db ! 0 \<le> total_voting_stake db
        \<and> total_voting_stake db < 2 ^ 64
        \<and> update_active_committee_members ext db = Inr db'"
  then have "sub_uint64 (total_voting_stake db) (witness_count_histogram_buffer db ! 0)
      = total_voting_stake db - witness_count_histogram_buffer db ! 0"
    by (simp add: sub_uint64_le)
  moreover have "(total_voting_stake db - witness_count_histogram_buffer db ! 0) div 2 < 2 ^ 63"
  proof -
    have "total_voting_stake db - witness_count_histogram_buffer db ! 0 < 2 ^ 63 * 2"
      using h by auto
    then show ?thesis by (rule less_mult_imp_div_less)
  qed
  ultimately have st: "to_int64 (sub_uint64 (total_voting_stake db)
       (witness_count_histogram_buffer db ! 0) div 2)
     = int ((total_voting_stake db - witness_count_histogram_buffer db ! 0) div 2)"
    by (simp add: to_int64_small)
  from h have "update_active_committee_members ext db = Inr db'" by blast
  then show "active_committee_members (gpo db')
          = map cm_id
              (sort_votable_objects (vote_tally_buffer db) cm_vote_id (committee_member_index db)
                (max ((let stake_target =
                             int ((total_voting_stake db - witness_count_histogram_buffer db ! 0) div 2)
                       in if stake_target > 0
                          then committee_count_loop (committee_count_histogram_buffer db) stake_target 0 0
                          else 0) * 2 + 1)
                     (min_committee_member_count (cpo db))))"
    unfolding update_active_committee_members_def st Let_def
    by (auto split: if_splits)
qed

theorem committee_stake_target_from_witness_histogram_witness:
  "\<exists>db'. update_active_committee_members ext0 db_stake = Inr db'
     \<and> witness_count_histogram_buffer db_stake ! 0 = 0
     \<and> committee_count_histogram_buffer db_stake ! 0 = 100
     \<and> total_voting_stake db_stake = 100
     \<and> active_committee_members (gpo db') = [3, 1, 2]"
proof -
  from db_stake_committee obtain db' where h: "update_active_committee_members ext0 db_stake = Inr db'" ..
  have pre: "witness_count_histogram_buffer db_stake ! 0 \<le> total_voting_stake db_stake"
    "total_voting_stake db_stake < 2 ^ 64"
    by (simp_all add: db_stake_def)
  have cnt: "committee_count_loop [100, 0] 50 0 0 = 1"
    by (simp add: committee_count_loop.simps to_int64_def add_uint64_def)
  from committee_stake_target_from_witness_histogram [of ext0 db_stake 0 db'] h pre
  have "active_committee_members (gpo db')
          = map cm_id
              (sort_votable_objects (vote_tally_buffer db_stake) cm_vote_id (committee_member_index db_stake)
                (max ((let stake_target =
                             int ((total_voting_stake db_stake - witness_count_histogram_buffer db_stake ! 0) div 2)
                       in if stake_target > 0
                          then committee_count_loop (committee_count_histogram_buffer db_stake) stake_target 0 0
                          else 0) * 2 + 1)
                     (min_committee_member_count (cpo db_stake))))"
    by blast
  then have "active_committee_members (gpo db') = [3, 1, 2]"
    by (simp add: db_stake_def db_votes_def db0_def cnt sort_votable_objects_def partial_sort_def
        vote_compare_def to_int64_def c1_def c2_def c3_def)
  with h show ?thesis by (auto simp: db_stake_def)
qed

subsection \<open>C8: votes for a count above the maximum\<close>

text \<open>
  C8.  The code does not do what the claim, and the comment at lines 769-774, say.  With
  \<open>maximum_witness_count = 3\<close> and \<open>maximum_committee_count = 3\<close> (two buckets each), an
  account holding 100 that votes for 5 witnesses and 5 committee members adds its stake to
  the tally of its vote and to \<open>_total_voting_stake\<close>, and to no bucket of either
  histogram: the guards at lines 765 and 777 skip the vote instead of clipping it.  The
  same account voting for 3 reaches the top bucket.
\<close>

theorem vote_above_cap_is_dropped:
  "\<exists>d'. vote_tally_helper ext0 db_tally voter = Inr d'
     \<and> maximum_witness_count (parameters (gpo db_tally)) = 3
     \<and> num_witness (options voter) = 5
     \<and> witness_count_histogram_buffer db_tally = [0, 0]
     \<and> witness_count_histogram_buffer d' = [0, 0]
     \<and> committee_count_histogram_buffer d' = [0, 0]
     \<and> vote_tally_buffer d' ! 1 = 100
     \<and> total_voting_stake d' = 100
     \<and> (\<exists>d''. vote_tally_helper ext0 db_tally
                  (voter\<lparr>options := (options voter)\<lparr>num_witness := 3, num_committee := 3\<rparr>\<rparr>) = Inr d''
           \<and> witness_count_histogram_buffer d'' = [0, 100]
           \<and> committee_count_histogram_buffer d'' = [0, 100])"
  unfolding vote_tally_helper_def Let_def
  by (simp add: db_tally_fields db0_fields ext0_fields voter_def bind_r_simps to_uint64_def
      add_uint64_def head_block_time_def)

subsection \<open>C6: the FBA split is conservative\<close>

text \<open>
  C6.  When \<open>split_fba_balance\<close> returns for a configured pool holding
  \<open>accumulated\<close> fees (not negative), with \<open>GRAPHENE_100_PERCENT\<close> positive and below
  \<open>2^32\<close>: the buyback share is \<open>accumulated * buyback_pct div GRAPHENE_100_PERCENT\<close>, the
  issuer share is \<open>accumulated * issuer_pct div GRAPHENE_100_PERCENT\<close>, the network share
  is what is left, so the three add up to \<open>accumulated\<close>; the core supply goes down by
  the network share, the pool is zero afterwards, and the operations pushed carry the two
  shares that are not zero.  The witness is the spec's scenario S5: a pool of 1000 split
  20/60/20 gives 600, 200 and 200.
\<close>

theorem split_fba_balance_conservative:
  assumes fba: "fba_accumulators db fba_id = Some fba"
    and conf: "is_configured ext fba db"
    and acc: "0 \<le> accumulated_fba_fees fba" "accumulated_fba_fees fba < 2 ^ 63"
    and P: "0 < GRAPHENE_100_PERCENT ext" "GRAPHENE_100_PERCENT ext < 2 ^ 32"
    and ok: "split_fba_balance ext db fba_id network_pct buyback_pct issuer_pct = Inr db'"
  shows "let accumulated = accumulated_fba_fees fba;
             buyback = accumulated * int buyback_pct div int (GRAPHENE_100_PERCENT ext);
             issuer = accumulated * int issuer_pct div int (GRAPHENE_100_PERCENT ext);
             network = accumulated - buyback - issuer
         in fba_share ext accumulated buyback_pct = buyback
            \<and> fba_share ext accumulated issuer_pct = issuer
            \<and> 0 \<le> network
            \<and> network + buyback + issuer = accumulated
            \<and> current_supply (core_dd db') = current_supply (core_dd db) - network
            \<and> map_option accumulated_fba_fees (fba_accumulators db' fba_id) = Some 0
            \<and> map op_amount (applied_operations db')
                = map op_amount (applied_operations db) @ filter (\<lambda>a. a \<noteq> 0) [buyback, issuer]"
proof -
  let ?A = "accumulated_fba_fees fba"
  define B where "B = ?A * int buyback_pct div int (GRAPHENE_100_PERCENT ext)"
  define I where "I = ?A * int issuer_pct div int (GRAPHENE_100_PERCENT ext)"
  define N where "N = ?A - (B + I)"
  have sum: "network_pct + buyback_pct + issuer_pct = GRAPHENE_100_PERCENT ext"
    using ok by (auto simp: split_fba_balance_def split: if_splits)
  then have le: "buyback_pct \<le> GRAPHENE_100_PERCENT ext" "issuer_pct \<le> GRAPHENE_100_PERCENT ext"
    "buyback_pct + issuer_pct \<le> GRAPHENE_100_PERCENT ext"
    by simp_all
  have sb: "fba_share ext ?A buyback_pct = B" "0 \<le> B"
    using fba_share_eq [OF acc le(1) P] by (simp_all add: B_def)
  have si: "fba_share ext ?A issuer_pct = I" "0 \<le> I"
    using fba_share_eq [OF acc le(2) P] by (simp_all add: I_def)
  have both: "B + I \<le> ?A"
    unfolding B_def I_def using acc(1) P(1) le(3) by (intro two_shares_le) simp_all
  have rng: "B + I < 2 ^ 63" "N < 2 ^ 63" "- (2 ^ 63) \<le> N" "- (2 ^ 63) \<le> B + I"
    using both sb(2) si(2) acc by (simp_all add: N_def)
  have sa: "safe_add B I = Inr (B + I)" "safe_sub ?A (B + I) = Inr N"
    using rng by (simp_all add: safe_add_def safe_sub_def N_def)
  have goal: "current_supply (core_dd db') = current_supply (core_dd db) - N
            \<and> map_option accumulated_fba_fees (fba_accumulators db' fba_id) = Some 0
            \<and> map op_amount (applied_operations db')
                = map op_amount (applied_operations db) @ filter (\<lambda>a. a \<noteq> 0) [B, I]"
  proof (cases "?A = 0")
    case True
    then have "B = 0" "I = 0" "N = 0" by (simp_all add: B_def I_def N_def)
    moreover have "db' = db"
      using ok fba True sum by (simp add: split_fba_balance_def)
    ultimately show ?thesis using fba True by simp
  next
    case False
    let ?s1 = "if N \<noteq> 0
               then bind_r (safe_sub (current_supply (core_dd db)) N) (\<lambda>supply.
                      Inr (db\<lparr>core_dd := (core_dd db)\<lparr>current_supply := supply\<rparr>\<rparr>))
               else Inr db"
    let ?s2 = "\<lambda>buyback db1. if B \<noteq> 0
                then bind_r (adjust_balance db1 buyback B) (\<lambda>db'.
                       Inr (push_applied_operation db'
                              \<lparr>op_account_id = buyback, op_fba_id = fba_id, op_amount = B\<rparr>))
                else Inr db1"
    let ?s3 = "\<lambda>designated db2. if I \<noteq> 0
                then bind_r (adjust_balance db2 (issuer designated) I) (\<lambda>db'.
                       Inr (push_applied_operation db'
                              \<lparr>op_account_id = issuer designated, op_fba_id = fba_id,
                               op_amount = I\<rparr>))
                else Inr db2"
    let ?fin = "\<lambda>db3. db3\<lparr>fba_accumulators :=
                         (fba_accumulators db3)(fba_id := Some (fba\<lparr>accumulated_fba_fees := 0\<rparr>))\<rparr>"
    have eq: "split_fba_balance ext db fba_id network_pct buyback_pct issuer_pct =
      (case designated_asset fba of
         None \<Rightarrow> Inl invalid_optional
       | Some asset_id \<Rightarrow>
         (case assets db asset_id of
            None \<Rightarrow> Inl object_not_found
          | Some designated \<Rightarrow>
              bind_r ?s1 (\<lambda>db1.
              case buyback_account designated of
                None \<Rightarrow> Inl invalid_optional
              | Some buyback \<Rightarrow>
                  bind_r (?s2 buyback db1) (\<lambda>db2.
                  bind_r (?s3 designated db2) (\<lambda>db3. Inr (?fin db3))))))"
      apply (simp add: split_fba_balance_def Let_def fba conf False sum)
      apply (unfold sb(1) si(1) sa bind_r_simps)
      apply (simp add: both N_def bind_r_simps split: option.splits)
      done
    note ok' = ok [unfolded eq]
    obtain asset_id where da: "designated_asset fba = Some asset_id"
      using ok' by (cases "designated_asset fba") simp_all
    obtain designated where ds: "assets db asset_id = Some designated"
      using ok' da by (cases "assets db asset_id") simp_all
    from ok' da ds have "bind_r ?s1 (\<lambda>db1.
              case buyback_account designated of
                None \<Rightarrow> Inl invalid_optional
              | Some buyback \<Rightarrow>
                  bind_r (?s2 buyback db1) (\<lambda>db2.
                  bind_r (?s3 designated db2) (\<lambda>db3. Inr (?fin db3)))) = Inr db'"
      by simp
    then obtain db1 where d1: "?s1 = Inr db1"
      and r1: "(case buyback_account designated of
                None \<Rightarrow> Inl invalid_optional
              | Some buyback \<Rightarrow>
                  bind_r (?s2 buyback db1) (\<lambda>db2.
                  bind_r (?s3 designated db2) (\<lambda>db3. Inr (?fin db3)))) = Inr db'"
      by (rule bind_r_InrE)
    obtain buyback where bb: "buyback_account designated = Some buyback"
      using r1 by (cases "buyback_account designated") simp_all
    from r1 bb have "bind_r (?s2 buyback db1) (\<lambda>db2.
                  bind_r (?s3 designated db2) (\<lambda>db3. Inr (?fin db3))) = Inr db'"
      by simp
    then obtain db2 where d2: "?s2 buyback db1 = Inr db2"
      and r2: "bind_r (?s3 designated db2) (\<lambda>db3. Inr (?fin db3)) = Inr db'"
      by (rule bind_r_InrE)
    from r2 have "\<exists>db3. ?s3 designated db2 = Inr db3 \<and> db' = ?fin db3"
      unfolding bind_r_Inr [of "?s3 designated db2"] by auto
    then obtain db3 where d3: "?s3 designated db2 = Inr db3" and d4: "db' = ?fin db3"
      by blast
    from d1 have f1: "current_supply (core_dd db1) = current_supply (core_dd db) - N"
      "applied_operations db1 = applied_operations db"
      by (auto simp: bind_r_Inr safe_sub_def split: if_splits)
    from d2 have f2: "core_dd db2 = core_dd db1"
      "map op_amount (applied_operations db2)
         = map op_amount (applied_operations db1) @ filter (\<lambda>a. a \<noteq> 0) [B]"
      by (auto simp: bind_r_Inr push_applied_operation_frame adjust_balance_frame split: if_splits)
    from d3 have f3: "core_dd db3 = core_dd db2"
      "map op_amount (applied_operations db3)
         = map op_amount (applied_operations db2) @ filter (\<lambda>a. a \<noteq> 0) [I]"
      by (auto simp: bind_r_Inr push_applied_operation_frame adjust_balance_frame split: if_splits)
    show ?thesis
      by (simp add: d4 f1 f2 f3)
  qed
  have "N = ?A - B - I" by (simp add: N_def)
  with goal sb(1) si(1) both show ?thesis
    unfolding Let_def B_def [symmetric] I_def [symmetric] by simp
qed

theorem split_fba_balance_conservative_witness:
  "\<exists>db'. split_fba_balance ext0 db_fba 0 (20 * GRAPHENE_1_PERCENT ext0)
            (60 * GRAPHENE_1_PERCENT ext0) (20 * GRAPHENE_1_PERCENT ext0) = Inr db'
     \<and> accumulated_fba_fees fba0 = 1000
     \<and> fba_share ext0 1000 (60 * GRAPHENE_1_PERCENT ext0) = 600
     \<and> fba_share ext0 1000 (20 * GRAPHENE_1_PERCENT ext0) = 200
     \<and> current_supply (core_dd db') = current_supply (core_dd db_fba) - 200
     \<and> map_option accumulated_fba_fees (fba_accumulators db' 0) = Some 0
     \<and> map op_amount (applied_operations db') = [600, 200]
     \<and> core_balances db' 41 = 600 \<and> core_balances db' 40 = 200"
proof -
  from db_fba_split obtain db' where
    ok: "split_fba_balance ext0 db_fba 0 (20 * GRAPHENE_1_PERCENT ext0)
            (60 * GRAPHENE_1_PERCENT ext0) (20 * GRAPHENE_1_PERCENT ext0) = Inr db'"
    and bal: "core_balances db' 41 = 600" "core_balances db' 40 = 200"
    by blast
  have fba: "fba_accumulators db_fba 0 = Some fba0" by (simp add: db_fba_fields)
  have conf: "is_configured ext0 fba0 db_fba" by (simp add: ext0_fields fba0_def)
  have acc: "0 \<le> accumulated_fba_fees fba0" "accumulated_fba_fees fba0 < 2 ^ 63"
    by (simp_all add: fba0_def)
  have P: "0 < GRAPHENE_100_PERCENT ext0" "GRAPHENE_100_PERCENT ext0 < 2 ^ 32"
    by (simp_all add: ext0_fields)
  from split_fba_balance_conservative [OF fba conf acc P ok]
  have "fba_share ext0 1000 (60 * GRAPHENE_1_PERCENT ext0) = 600
     \<and> fba_share ext0 1000 (20 * GRAPHENE_1_PERCENT ext0) = 200
     \<and> current_supply (core_dd db') = current_supply (core_dd db_fba) - 200
     \<and> map_option accumulated_fba_fees (fba_accumulators db' 0) = Some 0
     \<and> map op_amount (applied_operations db') = [600, 200]"
    by (simp add: Let_def fba0_def ext0_fields db_fba_fields)
  with ok bal show ?thesis by (auto simp: fba0_def)
qed

subsection \<open>C4: the budget record\<close>

text \<open>
  C4.  When \<open>initialize_budget_record\<close> returns, on a pass that is not the first
  (\<open>last_budget_time\<close> set and before \<open>now\<close>) \<open>time_since_last_budget\<close> is the elapsed
  time \<open>dt\<close> and \<open>total_budget\<close> is the least of
  \<open>ceil (reserve * dt * CORE_ASSET_CYCLE_RATE / 2^CYCLE_RATE_BITS)\<close> and \<open>reserve\<close>, where
  \<open>reserve\<close> is the initial reserve plus the accumulated fees plus the unused witness
  budget.  On the first pass \<open>time_since_last_budget\<close> is set to 0 and \<open>total_budget\<close> is
  left as the caller passed it: 0 in the fresh record \<open>process_budget\<close> passes.  The
  reserve is not negative, a time fits 32 bits, and the two constants of config.hpp are
  parameters with \<open>CYCLE_RATE \<le> 2^32\<close> and \<open>CYCLE_RATE_BITS < 64\<close>, so that nothing wraps
  in 128 bits.
\<close>

theorem initialize_budget_record_total:
  assumes nonneg: "0 \<le> reserved ext db + accumulated_fees (core_dd db) + dpo_witness_budget (dpo db)"
    and now: "now < 2 ^ 32"
    and rate: "GRAPHENE_CORE_ASSET_CYCLE_RATE ext \<le> 2 ^ 32"
      "GRAPHENE_CORE_ASSET_CYCLE_RATE_BITS ext < 64"
    and ok: "initialize_budget_record ext db now rec0 = Inr rec"
  shows "let reserve = reserved ext db + accumulated_fees (core_dd db) + dpo_witness_budget (dpo db);
             dt = int now - int (last_budget_time (dpo db))
         in if last_budget_time (dpo db) = 0 \<or> now \<le> last_budget_time (dpo db)
            then time_since_last_budget rec = 0
                 \<and> total_budget rec = total_budget rec0
                 \<and> (rec0 = budget_record_init \<longrightarrow> total_budget rec = 0)
            else time_since_last_budget rec = nat dt
                 \<and> total_budget rec
                     = min \<lceil>real_of_int (reserve * dt * int (GRAPHENE_CORE_ASSET_CYCLE_RATE ext))
                              / 2 ^ GRAPHENE_CORE_ASSET_CYCLE_RATE_BITS ext\<rceil>
                           reserve"
proof (cases "last_budget_time (dpo db) = 0 \<or> now \<le> last_budget_time (dpo db)")
  case True
  with ok have "rec = rec0\<lparr>from_initial_reserve := reserved ext db,
                    from_accumulated_fees := accumulated_fees (core_dd db),
                    from_unused_witness_budget := dpo_witness_budget (dpo db),
                    time_since_last_budget := 0\<rparr>"
    by (auto simp: initialize_budget_record_def Let_def)
  then show ?thesis using True by (simp add: Let_def budget_record_init_def)
next
  case False
  define reserve where
    "reserve = reserved ext db + accumulated_fees (core_dd db) + dpo_witness_budget (dpo db)"
  define dt where "dt = int now - int (last_budget_time (dpo db))"
  define rate where "rate = GRAPHENE_CORE_ASSET_CYCLE_RATE ext"
  define bits where "bits = GRAPHENE_CORE_ASSET_CYCLE_RATE_BITS ext"
  define X where "X = (reserve * dt * int rate + 2 ^ bits - 1) div 2 ^ bits"
  have dt: "0 < dt" "dt < 2 ^ 32" using False now by (auto simp: dt_def)
  define rec1 where "rec1 = rec0\<lparr>from_initial_reserve := reserved ext db,
                    from_accumulated_fees := accumulated_fees (core_dd db),
                    from_unused_witness_budget := dpo_witness_budget (dpo db),
                    time_since_last_budget := to_uint64 dt\<rparr>"
  from ok False have steps: "\<exists>r1. safe_add (reserved ext db) (accumulated_fees (core_dd db)) = Inr r1
     \<and> safe_add r1 (dpo_witness_budget (dpo db)) = Inr reserve"
    unfolding initialize_budget_record_def Let_def
    by (auto simp: bind_r_Inr safe_add_Inr reserve_def)
  then have rng: "reserve < 2 ^ 63" by (auto simp: safe_add_Inr)
  have r0: "0 \<le> reserve" using nonneg by (simp add: reserve_def)
  have bu: "budget_u128 ext reserve dt = nat X"
    unfolding X_def budget_u128_def Let_def rate_def bits_def
    using r0 rng dt rate by (intro budget_u128_value) simp_all
  have X0: "0 \<le> X"
  proof -
    have "0 \<le> reserve * dt * int rate" using r0 dt by simp
    moreover have "(1::int) \<le> 2 ^ bits" by simp
    ultimately have "0 \<le> reserve * dt * int rate + 2 ^ bits - 1" by linarith
    then show ?thesis unfolding X_def by (simp add: pos_imp_zdiv_nonneg_iff)
  qed
  have ur: "to_uint128 reserve = nat reserve" using r0 rng by (simp add: to_uint128_nonneg)
  from ok False steps have res: "rec = (if nat X < nat reserve
        then rec1\<lparr>total_budget := to_int64 (nat X mod 2 ^ 64)\<rparr>
        else rec1\<lparr>total_budget := reserve\<rparr>)"
    unfolding initialize_budget_record_def Let_def
    by (auto simp: bind_r_simps bu ur rec1_def simp flip: dt_def)
  have tb: "total_budget rec = min X reserve"
  proof (cases "X < reserve")
    case True
    then have "nat X < 2 ^ 63" using rng X0 by simp
    then have "to_int64 (nat X mod 2 ^ 64) = X" using X0 by (simp add: to_int64_small)
    then show ?thesis using True X0 r0 by (simp add: res)
  next
    case False
    then show ?thesis using X0 r0 by (simp add: res)
  qed
  have "X = \<lceil>real_of_int (reserve * dt * int rate) / 2 ^ bits\<rceil>"
    unfolding X_def using ceiling_div_pos [of "2 ^ bits" "reserve * dt * int rate"] by simp
  with tb have "total_budget rec = min \<lceil>real_of_int (reserve * dt * int rate) / 2 ^ bits\<rceil> reserve"
    by simp
  moreover have "time_since_last_budget rec = nat dt"
    using dt by (simp add: res rec1_def to_uint64_nonneg)
  ultimately show ?thesis
    using False unfolding Let_def reserve_def dt_def rate_def bits_def by simp
qed

theorem initialize_budget_record_total_witness:
  "(\<exists>rec. initialize_budget_record ext0 db0 1000000 budget_record_init = Inr rec
      \<and> time_since_last_budget rec = 86400 \<and> total_budget rec = 341639667750)
   \<and> (\<exists>rec. initialize_budget_record ext0 (db0\<lparr>dpo := (dpo db0)\<lparr>last_budget_time := 0\<rparr>\<rparr>) 1000000
            budget_record_init = Inr rec
      \<and> time_since_last_budget rec = 0 \<and> total_budget rec = 0)"
proof
  from db0_budget_record obtain rec where
    ok: "initialize_budget_record ext0 db0 1000000 budget_record_init = Inr rec" ..
  have pre: "0 \<le> reserved ext0 db0 + accumulated_fees (core_dd db0) + dpo_witness_budget (dpo db0)"
    "(1000000::nat) < 2 ^ 32"
    "GRAPHENE_CORE_ASSET_CYCLE_RATE ext0 \<le> 2 ^ 32"
    "GRAPHENE_CORE_ASSET_CYCLE_RATE_BITS ext0 < 64"
    by (simp_all add: db0_fields ext0_fields)
  have c: "\<lceil>(1467331200000000000000 :: real) / 4294967296\<rceil> = 341639667750"
    by (simp add: ceiling_eq_iff)
  from initialize_budget_record_total [OF pre ok]
  have "time_since_last_budget rec = 86400 \<and> total_budget rec = 341639667750"
    by (simp add: Let_def db0_fields ext0_fields c)
  with ok show "\<exists>rec. initialize_budget_record ext0 db0 1000000 budget_record_init = Inr rec
      \<and> time_since_last_budget rec = 86400 \<and> total_budget rec = 341639667750"
    by blast
next
  let ?db = "db0\<lparr>dpo := (dpo db0)\<lparr>last_budget_time := 0\<rparr>\<rparr>"
  from db0_first_budget_record obtain rec where
    ok: "initialize_budget_record ext0 ?db 1000000 budget_record_init = Inr rec" ..
  have pre: "0 \<le> reserved ext0 ?db + accumulated_fees (core_dd ?db) + dpo_witness_budget (dpo ?db)"
    "(1000000::nat) < 2 ^ 32"
    "GRAPHENE_CORE_ASSET_CYCLE_RATE ext0 \<le> 2 ^ 32"
    "GRAPHENE_CORE_ASSET_CYCLE_RATE_BITS ext0 < 64"
    by (simp_all add: db0_fields ext0_fields)
  from initialize_budget_record_total [OF pre ok]
  have "time_since_last_budget rec = 0 \<and> total_budget rec = 0"
    by (simp add: Let_def)
  with ok show "\<exists>rec. initialize_budget_record ext0 ?db 1000000 budget_record_init = Inr rec
      \<and> time_since_last_budget rec = 0 \<and> total_budget rec = 0"
    by blast
qed

subsection \<open>C10: the worker budget never goes negative\<close>

text \<open>
  C10.  When \<open>pay_workers\<close> returns from a budget that is not negative, the budget it
  leaves is not negative and is the initial budget less the sum of the amounts paid.  The
  workers paid are the first ones of the sorted list of active workers, in that order, and
  the loop stops before the end of the list only with a budget of zero.  The database goes
  through the states \<open>dbs\<close>, from the one at entry to the one returned: worker \<open>i\<close> is paid
  in state \<open>dbs ! i\<close>, while the remaining budget is positive, by a call of \<open>pay_worker\<close>
  that gives the next state; its pay is the least of the remaining budget and its
  \<open>requested_pay\<close>, the prorated daily pay in the state it is paid in.  \<open>paid\<close> is the trace of
  the calls: the worker, the requested pay and the actual pay.
\<close>

theorem pay_workers_budget_nonnegative:
  assumes "0 \<le> budget"
    and "pay_workers ext db budget = Inr (db', budget', paid)"
  shows "0 \<le> budget'
    \<and> budget' = budget - sum_list (map (\<lambda>p. snd (snd p)) paid)
    \<and> map fst paid = take (length paid) (active_workers ext db)
    \<and> (length paid < length (active_workers ext db) \<longrightarrow> budget' = 0)
    \<and> (\<forall>i < length paid.
          0 < budget - sum_list (map (\<lambda>p. snd (snd p)) (take i paid))
          \<and> snd (snd (paid ! i))
              = min (budget - sum_list (map (\<lambda>p. snd (snd p)) (take i paid))) (fst (snd (paid ! i))))
    \<and> (\<exists>dbs. length dbs = Suc (length paid) \<and> dbs ! 0 = db \<and> dbs ! length paid = db'
          \<and> (\<forall>i < length paid.
                fst (snd (paid ! i)) = requested_pay (dbs ! i) (active_workers ext db ! i)
                \<and> pay_worker ext (active_workers ext db ! i) (snd (snd (paid ! i))) (dbs ! i)
                    = Inr (dbs ! Suc i)))"
proof -
  from assms(2) have run:
    "pay_workers_loop ext (active_workers ext db) db budget = Inr (db', budget', paid)"
    by (simp add: pay_workers_def)
  from pay_workers_loop_budget [OF assms(1) run]
  have b: "0 \<le> budget'"
    "budget' = budget - sum_list (map (\<lambda>p. snd (snd p)) paid)"
    "map fst paid = take (length paid) (active_workers ext db)"
    "length paid < length (active_workers ext db) \<longrightarrow> budget' = 0"
    "\<forall>i < length paid.
          0 < budget - sum_list (map (\<lambda>p. snd (snd p)) (take i paid))
          \<and> snd (snd (paid ! i))
              = min (budget - sum_list (map (\<lambda>p. snd (snd p)) (take i paid))) (fst (snd (paid ! i)))"
    by blast+
  have w: "fst (paid ! i) = active_workers ext db ! i" if "i < length paid" for i
  proof -
    from that have "fst (paid ! i) = map fst paid ! i" by simp
    also have "\<dots> = take (length paid) (active_workers ext db) ! i" by (simp only: b(3) [symmetric])
    also from that have "\<dots> = active_workers ext db ! i" by simp
    finally show ?thesis .
  qed
  from pay_workers_loop_states [OF run] obtain dbs where
    d: "length dbs = Suc (length paid)" "dbs ! 0 = db" "dbs ! length paid = db'"
    and calls: "\<forall>i < length paid.
          fst (snd (paid ! i)) = requested_pay (dbs ! i) (fst (paid ! i))
          \<and> pay_worker ext (fst (paid ! i)) (snd (snd (paid ! i))) (dbs ! i) = Inr (dbs ! Suc i)"
    by blast
  from calls w have "\<forall>i < length paid.
                fst (snd (paid ! i)) = requested_pay (dbs ! i) (active_workers ext db ! i)
                \<and> pay_worker ext (active_workers ext db ! i) (snd (snd (paid ! i))) (dbs ! i)
                    = Inr (dbs ! Suc i)"
    by simp
  with d have "\<exists>dbs. length dbs = Suc (length paid) \<and> dbs ! 0 = db \<and> dbs ! length paid = db'
          \<and> (\<forall>i < length paid.
                fst (snd (paid ! i)) = requested_pay (dbs ! i) (active_workers ext db ! i)
                \<and> pay_worker ext (active_workers ext db ! i) (snd (snd (paid ! i))) (dbs ! i)
                    = Inr (dbs ! Suc i))"
    by blast
  with b show ?thesis by blast
qed

theorem pay_workers_budget_nonnegative_witness:
  "pay_workers ext_refund db_workers 70
     = Inr (db_workers\<lparr>core_dd := \<lparr>current_supply = 999999999930, accumulated_fees = 0\<rparr>\<rparr>,
            0, [(wk2, 50, 50), (wk3, 50, 20)])
   \<and> active_workers ext_refund db_workers = [wk2, wk3, wk1]
   \<and> (0::int) = 70 - sum_list (map (\<lambda>p. snd (snd p)) [(wk2, 50, 50), (wk3, 50 :: int, 20 :: int)])
   \<and> (\<exists>d1. requested_pay db_workers wk2 = 50 \<and> min 70 50 = (50 :: int)
         \<and> pay_worker ext_refund wk2 50 db_workers = Inr d1
         \<and> requested_pay d1 wk3 = 50 \<and> min (70 - 50) 50 = (20 :: int)
         \<and> pay_worker ext_refund wk3 20 d1
             = Inr (db_workers\<lparr>core_dd := \<lparr>current_supply = 999999999930,
                                            accumulated_fees = 0\<rparr>\<rparr>))"
proof -
  have h: "(0::int) \<le> 70" by simp
  note r = pay_workers_budget_nonnegative [OF h db_workers_refund_paid]
  from r have s: "(0::int) = 70 - sum_list (map (\<lambda>p. snd (snd p)) [(wk2, 50, 50), (wk3, 50 :: int, 20 :: int)])"
    by blast
  define paid where "paid = [(wk2, 50, 50), (wk3, 50 :: int, 20 :: int)]"
  from r obtain dbs where d0: "dbs ! 0 = db_workers"
    and d2: "dbs ! length paid
               = db_workers\<lparr>core_dd := \<lparr>current_supply = 999999999930, accumulated_fees = 0\<rparr>\<rparr>"
    and c0: "\<forall>i < length paid.
        fst (snd (paid ! i)) = requested_pay (dbs ! i) (active_workers ext_refund db_workers ! i)
        \<and> pay_worker ext_refund (active_workers ext_refund db_workers ! i)
             (snd (snd (paid ! i))) (dbs ! i)
            = Inr (dbs ! Suc i)"
    unfolding paid_def by blast
  from d0 d2 have d: "dbs ! 0 = db_workers"
    "dbs ! 2 = db_workers\<lparr>core_dd := \<lparr>current_supply = 999999999930, accumulated_fees = 0\<rparr>\<rparr>"
    by (simp_all add: paid_def numeral_2_eq_2)
  from c0 have calls: "\<forall>i < 2.
        fst (snd ([(wk2, 50, 50), (wk3, 50 :: int, 20 :: int)] ! i))
          = requested_pay (dbs ! i) (active_workers ext_refund db_workers ! i)
        \<and> pay_worker ext_refund (active_workers ext_refund db_workers ! i)
             (snd (snd ([(wk2, 50, 50), (wk3, 50 :: int, 20 :: int)] ! i))) (dbs ! i)
            = Inr (dbs ! Suc i)"
    by (simp add: paid_def)
  from calls [rule_format, of 0] calls [rule_format, of 1] d
  have "requested_pay db_workers wk2 = 50
         \<and> pay_worker ext_refund wk2 50 db_workers = Inr (dbs ! 1)
         \<and> requested_pay (dbs ! 1) wk3 = 50
         \<and> pay_worker ext_refund wk3 20 (dbs ! 1)
             = Inr (db_workers\<lparr>core_dd := \<lparr>current_supply = 999999999930,
                                            accumulated_fees = 0\<rparr>\<rparr>)"
    by (simp add: db_workers_refund_active numeral_2_eq_2)
  then have "\<exists>d1. requested_pay db_workers wk2 = 50 \<and> min 70 50 = (50 :: int)
         \<and> pay_worker ext_refund wk2 50 db_workers = Inr d1
         \<and> requested_pay d1 wk3 = 50 \<and> min (70 - 50) 50 = (20 :: int)
         \<and> pay_worker ext_refund wk3 20 d1
             = Inr (db_workers\<lparr>core_dd := \<lparr>current_supply = 999999999930,
                                            accumulated_fees = 0\<rparr>\<rparr>)"
    by (intro exI [of _ "dbs ! 1"]) simp
  with s db_workers_refund_paid db_workers_refund_active show ?thesis by blast
qed

subsection \<open>C1: the supply after a budget pass\<close>




subsection \<open>C5: the worker budget\<close>

text \<open>
  C5 as stated fails.  The period of the worker budget is \<open>time_to_maint\<close>, the time from the
  head block to the next maintenance (line 414), and not the time since the last budget.
  In \<open>db_budget\<close> the last budget was 86400 seconds ago and the next maintenance is in 43200
  seconds: with 1000 a day the worker budget is 500, and the claim gives 1000.
\<close>

theorem worker_budget_elapsed_counterexample:
  "\<exists>db'. process_budget ext0 db_budget = Inr db'
     \<and> (let rec = snd (last (budget_records db'));
             dt = int (head_block_time db_budget) - int (last_budget_time (dpo db_budget))
         in worker_budget rec = 500
          \<and> min (worker_budget_per_day (parameters (gpo db_budget)) * dt div 86400)
                (total_budget rec - witness_budget rec) = 1000)"
  by (simp add: db_budget_process db_budget_fields db0_fields Let_def budget_record_init_def)

text \<open>
  C5, amended.  When \<open>process_budget\<close> returns, the worker budget of the record it created
  is \<open>floor (worker_budget_per_day * time_to_maint / 86400)\<close>, where \<open>time_to_maint\<close> is
  \<open>next_maintenance_time - head_block_time\<close>, capped at \<open>total_budget - witness_budget\<close>, the
  funds left after the witness budget.  The daily budget and the total budget are not
  negative and the next maintenance time fits 32 bits.
\<close>

theorem process_budget_worker_budget:
  assumes ok: "process_budget ext db = Inr db'"
    and day: "0 \<le> worker_budget_per_day (parameters (gpo db))"
      "worker_budget_per_day (parameters (gpo db)) < 2 ^ 63"
    and nmt: "next_maintenance_time (dpo db) < 2 ^ 32"
    and tot: "0 \<le> total_budget (snd (last (budget_records db')))"
  shows "let rec = snd (last (budget_records db'));
             time_to_maint = int (next_maintenance_time (dpo db)) - int (head_block_time db)
         in worker_budget rec
              = min (worker_budget_per_day (parameters (gpo db)) * time_to_maint div 86400)
                    (total_budget rec - witness_budget rec)"
proof -
  from process_budget_result [OF ok] obtain rec0 db1 leftover paid where
    init: "initialize_budget_record ext db (head_block_time db) budget_record_init = Inr rec0"
    and t: "0 < time_to_maint db"
    and r: "let wit = min (requested_witness_budget_of db) (total_budget rec0);
            wb = worker_budget_of db (total_budget rec0 - wit);
            sd = wit + wb - leftover - from_accumulated_fees rec0 - from_unused_witness_budget rec0
        in pay_workers ext db wb = Inr (db1, leftover, paid)
           \<and> sd = wit + wb - leftover - accumulated_fees (core_dd db1) - dpo_witness_budget (dpo db1)
           \<and> db' = db1\<lparr>core_dd := (core_dd db1)\<lparr>current_supply := current_supply (core_dd db1) + sd,
                                                  accumulated_fees := 0\<rparr>,
                          dpo := (dpo db1)\<lparr>dpo_witness_budget := wit,
                                            last_budget_time := head_block_time db\<rparr>,
                          budget_records := budget_records db1 @
                            [(head_block_time db1,
                              rec0\<lparr>requested_witness_budget := requested_witness_budget_of db,
                                   witness_budget := wit, worker_budget := wb,
                                   leftover_worker_funds := leftover, supply_delta := sd\<rparr>)]\<rparr>"
    by blast
  define wit where "wit = min (requested_witness_budget_of db) (total_budget rec0)"
  define wb where "wb = worker_budget_of db (total_budget rec0 - wit)"
  from r have rec: "witness_budget (snd (last (budget_records db'))) = wit"
    "worker_budget (snd (last (budget_records db'))) = wb"
    "total_budget (snd (last (budget_records db'))) = total_budget rec0"
    unfolding Let_def wit_def wb_def by simp_all
  have av: "0 \<le> total_budget rec0 - wit" "total_budget rec0 - wit < 2 ^ 63"
    using tot process_budget_available [OF ok init] unfolding rec wit_def by simp_all
  have "time_to_maint db \<le> int (next_maintenance_time (dpo db))"
    by (simp add: time_to_maint_def)
  with nmt have t2: "time_to_maint db < 2 ^ 32" by simp
  from worker_budget_of_value [OF day t t2 av]
  show ?thesis unfolding Let_def rec wb_def time_to_maint_def .
qed

theorem process_budget_worker_budget_witness:
  "\<exists>db'. process_budget ext0 db_budget = Inr db'
     \<and> worker_budget (snd (last (budget_records db')))
         = min (1000 * 43200 div 86400) (341639667750 - 8640000)"
proof -
  from db_budget_process obtain db' where ok: "process_budget ext0 db_budget = Inr db'"
    and w: "witness_budget (snd (last (budget_records db'))) = 8640000"
      "total_budget (snd (last (budget_records db'))) = 341639667750"
    by (simp add: budget_record_init_def)
  have pre: "0 \<le> worker_budget_per_day (parameters (gpo db_budget))"
      "worker_budget_per_day (parameters (gpo db_budget)) < 2 ^ 63"
      "next_maintenance_time (dpo db_budget) < 2 ^ 32"
      "0 \<le> total_budget (snd (last (budget_records db')))"
    by (simp_all add: db_budget_fields db0_fields w)
  from process_budget_worker_budget [OF ok pre]
  have "worker_budget (snd (last (budget_records db')))
         = min (1000 * 43200 div 86400) (341639667750 - 8640000)"
    unfolding Let_def w by (simp add: db_budget_fields db0_fields)
  with ok show ?thesis by blast
qed

end
